theory Spec2Isabelle
  imports
    Complex_Main
    "HOL-Library.Char_ord"
    "HOL-Library.List_Lexorder"
    "HOL-Library.Sublist"
    "HOL-Library.Multiset"
    "HOL-Library.Log_Nat"
begin

section \<open>tsfpga: the documentation build script\<close>

text \<open>
  A shallow embedding of \<^verbatim>\<open>tools/build_docs.py\<close>.

  Python strings are \<open>string\<close>: a \<open>char\<close> stands for a code point below 256, so
  \<open>length\<close> is Python's \<open>len\<close> and the order of \<open>HOL-Library.List_Lexorder\<close> over
  \<open>HOL-Library.Char_ord\<close> is Python's order on \<open>str\<close>. Python integers are \<open>int\<close>.
  A function that can raise returns its exception as a value of type \<open>error\<close>.
\<close>

subsection \<open>Exceptions\<close>

datatype error =
    AssertionError string
  | FileNotFoundError string
  | GitReferenceError string
  | DateRangeError int
  | OverflowError
  | CalledProcessError string
  | OtherError string

subsection \<open>Strings and paths\<close>

text \<open>\<^verbatim>\<open>str(n)\<close> for an integer: decimal digits, a minus sign for a negative number.\<close>

definition digit_char :: "nat \<Rightarrow> char" where
  "digit_char d = char_of (48 + d)"

fun str_nat :: "nat \<Rightarrow> string" where
  "str_nat n = (if n < 10 then [digit_char n] else str_nat (n div 10) @ [digit_char (n mod 10)])"

definition str_int :: "int \<Rightarrow> string" where
  "str_int i = (if i < 0 then CHR ''-'' # str_nat (nat (- i)) else str_nat (nat i))"

text \<open>\<^verbatim>\<open>str.lower()\<close> on code points below 256: the upper-case letters are A to Z and
  0xC0 to 0xDE without the multiplication sign 0xD7; each has its lower-case letter 32
  places above.\<close>

definition lower_char :: "char \<Rightarrow> char" where
  "lower_char c =
     (let n = (of_char c :: nat)
      in if (65 \<le> n \<and> n \<le> 90) \<or> (192 \<le> n \<and> n \<le> 222 \<and> n \<noteq> 215)
         then char_of (n + 32) else c)"

definition lower :: "string \<Rightarrow> string" where
  "lower s = map lower_char s"

text \<open>\<^verbatim>\<open>directory / name\<close> of pathlib, for a relative name of one component.\<close>

definition joinpath :: "string \<Rightarrow> string \<Rightarrow> string" where
  "joinpath d n = d @ ''/'' @ n"

text \<open>\<^verbatim>\<open>str.rfind(c)\<close>: the index of the last occurrence, \<open>None\<close> for Python's -1.\<close>

definition rfind :: "char \<Rightarrow> string \<Rightarrow> nat option" where
  "rfind c s =
     (if c \<in> set s then Some (length s - 1 - length (takeWhile (\<lambda>x. x \<noteq> c) (rev s)))
      else None)"

text \<open>\<^verbatim>\<open>PurePath.stem\<close> of a file name: the name without its last suffix. pathlib computes
  \<^verbatim>\<open>i = name.rfind('.')\<close> and returns \<^verbatim>\<open>name[:i]\<close> if \<^verbatim>\<open>0 < i < len(name) - 1\<close>,
  the whole name otherwise.\<close>

definition stem :: "string \<Rightarrow> string" where
  "stem name =
     (case rfind CHR ''.'' name of
        None \<Rightarrow> name
      | Some i \<Rightarrow> if 0 < i \<and> int i < int (length name) - 1 then take i name else name)"

subsection \<open>Floating point\<close>

text \<open>
  A Python float is an IEEE 754 binary64 number. A finite one is the rational it denotes;
  \<open>nearest_double\<close> rounds a rational to the nearest binary64 number, ties to even, which
  is what \<^verbatim>\<open>float(text)\<close> does to a decimal numeral and what an arithmetic operation
  does to its exact result. NaN does not arise from a decimal numeral and a product with 100.
\<close>

datatype pyfloat = Finite rat | Infinity bool

definition pow2 :: "int \<Rightarrow> rat" where
  "pow2 e = (if 0 \<le> e then 2 ^ nat e else 1 / 2 ^ nat (- e))"

text \<open>For \<open>0 < q\<close>, the exponent \<open>e\<close> with \<open>2 ^ e \<le> q < 2 ^ (e + 1)\<close>.\<close>

definition binade :: "rat \<Rightarrow> int" where
  "binade q =
     (let (a, b) = quotient_of q; k = bitlen a - bitlen b
      in if pow2 k \<le> q then k else k - 1)"

definition round_half_even :: "rat \<Rightarrow> int" where
  "round_half_even q =
     (let f = \<lfloor>q\<rfloor>; d = q - of_int f
      in if d < 1 / 2 then f else if 1 / 2 < d then f + 1 else if even f then f else f + 1)"

definition nearest_double :: "rat \<Rightarrow> pyfloat" where
  "nearest_double q =
     (if q = 0 then Finite 0
      else let a = \<bar>q\<bar>;
               e = max (binade a) (- 1022);
               ulp = pow2 (e - 52);
               r = of_int (round_half_even (a / ulp)) * ulp
           in if pow2 1024 \<le> r then Infinity (q < 0) else Finite (sgn q * r))"

text \<open>\<^verbatim>\<open>x * 100\<close> on floats.\<close>

definition float_times_100 :: "pyfloat \<Rightarrow> pyfloat" where
  "float_times_100 x = (case x of Finite q \<Rightarrow> nearest_double (q * 100) | Infinity s \<Rightarrow> Infinity s)"

text \<open>\<^verbatim>\<open>int(round(x))\<close>: \<^verbatim>\<open>round\<close> with one argument rounds a float to the nearest
  integer, ties to even, and raises OverflowError on an infinity.\<close>

definition py_round :: "pyfloat \<Rightarrow> error + int" where
  "py_round x = (case x of Finite q \<Rightarrow> Inr (round_half_even q) | Infinity s \<Rightarrow> Inl OverflowError)"

subsection \<open>The coverage badge\<close>

text \<open>The keyword arguments of the call of \<^verbatim>\<open>pybadges.badge\<close> in
  \<^verbatim>\<open>build_python_coverage_badge\<close>.\<close>

record badge_arguments =
  left_text :: string
  right_text :: string
  right_color :: string
  logo :: string
  embed_logo :: bool
  left_link :: string
  right_link :: string

text \<open>
  \<^verbatim>\<open>build_python_coverage_badge(output_path)\<close>. The parameters of the model:
  \<^item> \<open>badge\<close>: the renderer of the library pybadges, from the arguments to the SVG text;
  \<^item> \<open>tsfpga_doc\<close>: the constant \<^verbatim>\<open>tsfpga.TSFPGA_DOC\<close>;
  \<^item> \<open>coverage_xml\<close>: \<open>None\<close> when \<^verbatim>\<open>python_coverage.xml\<close> does not exist, else the
    decimal number that the attribute \<^verbatim>\<open>line-rate\<close> of its root element holds;
  \<^item> \<open>files\<close>: the files written so far, by path.
  The result is the exception raised, if any, and the files afterwards.
\<close>

definition line_coverage_of :: "rat \<Rightarrow> error + int" where
  "line_coverage_of line_rate = py_round (float_times_100 (nearest_double line_rate))"

definition build_python_coverage_badge ::
  "(badge_arguments \<Rightarrow> string) \<Rightarrow> string \<Rightarrow> string \<Rightarrow> rat option \<Rightarrow> (string \<rightharpoonup> string)
     \<Rightarrow> error option \<times> (string \<rightharpoonup> string)" where
  "build_python_coverage_badge badge tsfpga_doc output_path coverage_xml files =
     (case coverage_xml of
        None \<Rightarrow> (Some (AssertionError ''Run pytest with coverage before building documentation''), files)
      | Some line_rate \<Rightarrow>
          (case line_coverage_of line_rate of
             Inl e \<Rightarrow> (Some e, files)
           | Inr line_coverage \<Rightarrow>
               if \<not> line_coverage > 50
               then (Some (AssertionError
                       (''Coverage is way low: '' @ str_int line_coverage @ ''. Something is wrong.'')),
                     files)
               else
                 let color = (if line_coverage > 80 then ''green'' else ''red'');
                     badge_svg = badge
                       \<lparr>left_text = ''line coverage'',
                        right_text = str_int line_coverage @ ''%'',
                        right_color = color,
                        logo = joinpath (joinpath tsfpga_doc ''sphinx'') ''Python-logo-notext.svg'',
                        embed_logo = True,
                        left_link = ''https://tsfpga.com/python_coverage_html'',
                        right_link = ''https://tsfpga.com/python_coverage_html''\<rparr>
                 in (None, files(joinpath output_path ''python_coverage.svg'' \<mapsto> badge_svg))))"

subsection \<open>The main function\<close>

text \<open>The namespace that \<^verbatim>\<open>arguments()\<close> returns: argparse's parse of the command
  line, with the one flag \<^verbatim>\<open>--skip-coverage\<close> (\<^verbatim>\<open>store_true\<close>).\<close>

record args =
  skip_coverage :: bool

text \<open>The calls of \<^verbatim>\<open>main\<close>, in the order of the source.\<close>

datatype step =
    Delete_sphinx_html
  | Generate_registers
  | Generate_release_notes
  | Generate_apidoc
  | Generate_sphinx_index
  | Build_sphinx
  | Create_badges_directory
  | Build_information_badges
  | Build_python_coverage_badge
  | Copy_python_coverage_to_html_output

text \<open>
  A run of \<^verbatim>\<open>main\<close>: the calls made so far (oldest first), the state of the file system
  and of the external tools, and the exception that ended the run, if any. What a call does
  to the state is the parameter \<open>exec\<close>: most calls start an external process or write a
  file. A call after an exception is not made.
\<close>

record 'w run =
  calls :: "step list"
  state :: 'w
  raised :: "error option"

definition call :: "(step \<Rightarrow> 'w \<Rightarrow> error option \<times> 'w) \<Rightarrow> step \<Rightarrow> 'w run \<Rightarrow> 'w run" where
  "call exec s r =
     (case raised r of
        Some e \<Rightarrow> r
      | None \<Rightarrow> (case exec s (state r) of (e, w') \<Rightarrow> \<lparr>calls = calls r @ [s], state = w', raised = e\<rparr>))"

definition main :: "(step \<Rightarrow> 'w \<Rightarrow> error option \<times> 'w) \<Rightarrow> args \<Rightarrow> 'w \<Rightarrow> 'w run" where
  "main exec args w =
     (let r = \<lparr>calls = [], state = w, raised = None\<rparr>;
          r = call exec Delete_sphinx_html r;
          r = call exec Generate_registers r;
          r = call exec Generate_release_notes r;
          r = call exec Generate_apidoc r;
          r = call exec Generate_sphinx_index r;
          r = call exec Build_sphinx r;
          r = call exec Create_badges_directory r;
          r = call exec Build_information_badges r
      in if skip_coverage args then r
         else
           let r = call exec Build_python_coverage_badge r;
               r = call exec Copy_python_coverage_to_html_output r
           in r)"

text \<open>The calls of \<^verbatim>\<open>main\<close> before and after the test of the flag, and a list of calls
  made one after the other.\<close>

definition documentation_steps :: "step list" where
  "documentation_steps =
     [Delete_sphinx_html, Generate_registers, Generate_release_notes, Generate_apidoc,
      Generate_sphinx_index, Build_sphinx, Create_badges_directory, Build_information_badges]"

definition coverage_steps :: "step list" where
  "coverage_steps = [Build_python_coverage_badge, Copy_python_coverage_to_html_output]"

definition run_steps :: "(step \<Rightarrow> 'w \<Rightarrow> error option \<times> 'w) \<Rightarrow> step list \<Rightarrow> 'w run \<Rightarrow> 'w run" where
  "run_steps exec steps r = foldl (\<lambda>r s. call exec s r) r steps"

text \<open>
  What it means to run a list of steps, said with \<open>exec\<close> alone and without \<open>call\<close>: the
  steps are applied in order, each to the state that the step before it left, up to and
  including the first that raises. The property of \<open>main\<close> is stated against it.
\<close>

fun execute :: "(step \<Rightarrow> 'w \<Rightarrow> error option \<times> 'w) \<Rightarrow> step list \<Rightarrow> 'w \<Rightarrow> 'w run" where
  "execute exec [] w = \<lparr>calls = [], state = w, raised = None\<rparr>"
| "execute exec (s # steps) w =
     (case exec s w of
        (Some e, w') \<Rightarrow> \<lparr>calls = [s], state = w', raised = Some e\<rparr>
      | (None, w') \<Rightarrow> (let r = execute exec steps w' in r\<lparr>calls := s # calls r\<rparr>))"

subsection \<open>Calendar dates\<close>

text \<open>
  \<^verbatim>\<open>datetime.fromtimestamp(timestamp)\<close> is the local calendar date and time at
  \<open>timestamp\<close> seconds after the epoch; only \<^verbatim>\<open>year\<close>, \<^verbatim>\<open>month\<close> and \<^verbatim>\<open>day\<close>
  are read. The local time zone is the parameter \<open>utcoffset\<close>: the seconds that local
  time is ahead of UTC at a timestamp. The date of a day number follows the proleptic
  Gregorian calendar the way \<^verbatim>\<open>datetime\<close> computes it from an ordinal (day 1 is
  1 January of year 1; 1 January 1970 is day 719163). Years outside 1 to 9999 are refused.
\<close>

record datetime =
  year :: int
  month :: int
  day :: int

definition days_before_month :: "int \<Rightarrow> int" where
  "days_before_month m = [0, 31, 59, 90, 120, 151, 181, 212, 243, 273, 304, 334] ! nat (m - 1)"

definition days_in_month :: "int \<Rightarrow> int" where
  "days_in_month m = [31, 28, 31, 30, 31, 30, 31, 31, 30, 31, 30, 31] ! nat (m - 1)"

definition ord2ymd :: "int \<Rightarrow> int \<times> int \<times> int" where
  "ord2ymd ordinal =
     (let n = ordinal - 1;
          n400 = n div 146097; n = n mod 146097;
          n100 = n div 36524; n = n mod 36524;
          n4 = n div 1461; n = n mod 1461;
          n1 = n div 365; n = n mod 365;
          y = n400 * 400 + 1 + n100 * 100 + n4 * 4 + n1
      in if n1 = 4 \<or> n100 = 4 then (y - 1, 12, 31)
         else
           let leapyear = (n1 = 3 \<and> (n4 \<noteq> 24 \<or> n100 = 3));
               m = (n + 50) div 32;
               preceding = days_before_month m + (if 2 < m \<and> leapyear then 1 else 0)
           in if n < preceding
              then
                let m = m - 1;
                    preceding = preceding - (days_in_month m + (if m = 2 \<and> leapyear then 1 else 0))
                in (y, m, n - preceding + 1)
              else (y, m, n - preceding + 1))"

definition fromtimestamp :: "(int \<Rightarrow> int) \<Rightarrow> int \<Rightarrow> error + datetime" where
  "fromtimestamp utcoffset timestamp =
     (let local_seconds = timestamp + utcoffset timestamp;
          (y, m, d) = ord2ymd (719163 + local_seconds div 86400)
      in if y < 1 \<or> 9999 < y then Inl (DateRangeError timestamp)
         else Inr \<lparr>year = y, month = m, day = d\<rparr>)"

text \<open>\<^verbatim>\<open>%B\<close>: the full name of the month, in the C locale.\<close>

definition month_name :: "int \<Rightarrow> string" where
  "month_name m =
     [''January'', ''February'', ''March'', ''April'', ''May'', ''June'', ''July'',
      ''August'', ''September'', ''October'', ''November'', ''December''] ! nat (m - 1)"

subsection \<open>Release notes\<close>

text \<open>
  The world that \<^verbatim>\<open>generate_release_notes\<close> reads and writes:
  \<^item> \<open>release_notes_dir\<close>: the regular files of the directory
    \<^verbatim>\<open>tsfpga.TSFPGA_DOC / "release_notes"\<close>, name and text, in the order in which a scan
    of the directory returns them (a file system has no two files of one name);
  \<^item> \<open>tags\<close>: the git repository, from a reference path to the \<^verbatim>\<open>committed_date\<close> of
    the commit that the reference points to;
  \<^item> \<open>utcoffset\<close>: the local time zone;
  \<^item> \<open>generated_sphinx\<close>: the files of \<^verbatim>\<open>tsfpga.TSFPGA_GENERATED / "sphinx"\<close>, by name;
  \<^item> \<open>tag_queries\<close>: the tags looked up in the repository so far, oldest first.
    This field is a log that the script itself does not keep.
  A path below \<^verbatim>\<open>release_notes\<close> is its file name: all paths that the script compares
  or sorts are in that one directory, where pathlib orders paths by their last component.
\<close>

record world =
  release_notes_dir :: "(string \<times> string) list"
  tags :: "string \<rightharpoonup> int"
  utcoffset :: "int \<Rightarrow> int"
  generated_sphinx :: "string \<rightharpoonup> string"
  tag_queries :: "string list"

text \<open>\<^verbatim>\<open>release_notes_dir.glob("*.rst")\<close>: the names that end in \<^verbatim>\<open>.rst\<close>; names that
  start with a dot are not special to pathlib.\<close>

definition glob_rst :: "world \<Rightarrow> string list" where
  "glob_rst w = filter (\<lambda>name. suffix ''.rst'' name) (map fst (release_notes_dir w))"

text \<open>Modelled from the spec: \<^verbatim>\<open>tsfpga.system_utils.read_file\<close> is not among the
  sources. It returns the text of the file (the raw document body loaded from the version's
  file); opening a file that does not exist raises.\<close>

definition read_file :: "world \<Rightarrow> string \<Rightarrow> error + string" where
  "read_file w name =
     (case map_of (release_notes_dir w) name of
        None \<Rightarrow> Inl (FileNotFoundError name)
      | Some contents \<Rightarrow> Inr contents)"

text \<open>Modelled from the spec: \<^verbatim>\<open>tsfpga.system_utils.create_file\<close> is not among the
  sources. It writes the text to the file, replacing what the file held.\<close>

definition create_file :: "string \<Rightarrow> string \<Rightarrow> world \<Rightarrow> world" where
  "create_file name contents w = w\<lparr>generated_sphinx := (generated_sphinx w)(name \<mapsto> contents)\<rparr>"

record release =
  release_notes_file :: string
  version :: string
  git_tag :: string
  date :: string

text \<open>\<^verbatim>\<open>Release.get_git_date_from_tag(tag)\<close>. GitPython raises when the reference does
  not exist. \<open>git_date\<close> is the value; \<open>get_git_date_from_tag\<close> also logs the query.\<close>

definition git_date :: "world \<Rightarrow> string \<Rightarrow> error + string" where
  "git_date w tag =
     (case tags w (''refs/tags/'' @ tag) of
        None \<Rightarrow> Inl (GitReferenceError (''refs/tags/'' @ tag))
      | Some timestamp \<Rightarrow>
          (case fromtimestamp (utcoffset w) timestamp of
             Inl e \<Rightarrow> Inl e
           | Inr time \<Rightarrow>
               Inr (lower (str_int (day time) @ '' '' @ month_name (month time) @ '' ''
                           @ str_int (year time)))))"

definition get_git_date_from_tag :: "string \<Rightarrow> world \<Rightarrow> (error + string) \<times> world" where
  "get_git_date_from_tag tag w = (git_date w tag, w\<lparr>tag_queries := tag_queries w @ [tag]\<rparr>)"

text \<open>\<^verbatim>\<open>Release.__init__(release_notes_file)\<close>.\<close>

definition Release :: "string \<Rightarrow> world \<Rightarrow> (error + release) \<times> world" where
  "Release file w =
     (let v = stem file
      in if v = ''unreleased''
         then (Inr \<lparr>release_notes_file = file, version = ''Unreleased'', git_tag = ''master'',
                    date = ''YYYY-MM-DD''\<rparr>, w)
         else
           (case get_git_date_from_tag (''v'' @ v) w of
              (Inl e, w') \<Rightarrow> (Inl e, w')
            | (Inr d, w') \<Rightarrow>
                (Inr \<lparr>release_notes_file = file, version = v, git_tag = ''v'' @ v, date = d\<rparr>, w')))"

text \<open>The list comprehension
  \<^verbatim>\<open>[Release(release_notes_file) for release_notes_file in release_notes]\<close>:
  the first exception ends it.\<close>

fun Releases :: "string list \<Rightarrow> world \<Rightarrow> (error + release list) \<times> world" where
  "Releases [] w = (Inr [], w)"
| "Releases (file # files) w =
     (case Release file w of
        (Inl e, w') \<Rightarrow> (Inl e, w')
      | (Inr r, w') \<Rightarrow>
          (case Releases files w' of
             (Inl e, w'') \<Rightarrow> (Inl e, w'')
           | (Inr rs, w'') \<Rightarrow> (Inr (r # rs), w'')))"

text \<open>The list \<^verbatim>\<open>release_notes\<close> of \<^verbatim>\<open>get_release_notes_files\<close> before the releases
  are made: the versioned files, \<^verbatim>\<open>sort(reverse=True)\<close>, with the path of the unreleased
  notes inserted at index 0.\<close>

definition unreleased_notes_file :: string where
  "unreleased_notes_file = ''unreleased.rst''"

definition versioned_files :: "world \<Rightarrow> string list" where
  "versioned_files w = filter (\<lambda>file. \<not> file = unreleased_notes_file) (glob_rst w)"

definition release_notes :: "world \<Rightarrow> string list" where
  "release_notes w = unreleased_notes_file # rev (sort (versioned_files w))"

text \<open>
  \<^verbatim>\<open>get_release_notes_files()\<close>, a generator: everything up to the loop runs when the
  first item is asked for, so every release is made, and every tag looked up, before the
  first item is yielded. The loop that yields has no effect of its own, so the model
  returns the items as a list.
\<close>

definition previous_release_git_tags :: "release list \<Rightarrow> (release \<times> string option) list" where
  "previous_release_git_tags releases =
     map (\<lambda>idx. (releases ! idx,
                 if int idx = int (length releases) - 1 then None
                 else Some (git_tag (releases ! (idx + 1)))))
       [0..<length releases]"

definition get_release_notes_files ::
  "world \<Rightarrow> (error + (release \<times> string option) list) \<times> world" where
  "get_release_notes_files w =
     (case Releases (release_notes w) w of
        (Inl e, w') \<Rightarrow> (Inl e, w')
      | (Inr releases, w') \<Rightarrow> (Inr (previous_release_git_tags releases), w'))"

text \<open>The text that one pass of the loop of \<^verbatim>\<open>generate_release_notes\<close> appends to
  \<^verbatim>\<open>rst\<close> before it reads the notes.\<close>

definition entry_head :: "release \<Rightarrow> string option \<Rightarrow> string" where
  "entry_head r previous_release_git_tag =
     (let heading = version r @ '' ('' @ date r @ '')'';
          rst = heading @ ''\<newline>'';
          rst = rst @ replicate (length heading) CHR ''-'' @ ''\<newline>'';
          rst = rst @ ''\<newline>'';
          rst = (case previous_release_git_tag of
                   None \<Rightarrow> rst
                 | Some previous \<Rightarrow>
                     let diff_url = ''https://gitlab.com/tsfpga/tsfpga/-/compare/''
                                    @ previous @ ''...'' @ git_tag r
                     in rst @ ''`Changes since previous release <'' @ diff_url @ ''>`__\<newline>'')
      in rst @ ''\<newline>'')"

fun release_notes_loop ::
  "world \<Rightarrow> (release \<times> string option) list \<Rightarrow> string \<Rightarrow> error + string" where
  "release_notes_loop w [] rst = Inr rst"
| "release_notes_loop w ((r, previous_release_git_tag) # items) rst =
     (let rst = rst @ entry_head r previous_release_git_tag
      in case read_file w (release_notes_file r) of
           Inl e \<Rightarrow> Inl e
         | Inr contents \<Rightarrow> release_notes_loop w items (rst @ contents @ ''\<newline>''))"

text \<open>\<^verbatim>\<open>generate_release_notes()\<close>: the exception raised, if any, and the world
  afterwards. The output is \<^verbatim>\<open>release_notes.rst\<close> in the generated sphinx directory.\<close>

definition generate_release_notes :: "world \<Rightarrow> error option \<times> world" where
  "generate_release_notes w =
     (case get_release_notes_files w of
        (Inl e, w') \<Rightarrow> (Some e, w')
      | (Inr items, w') \<Rightarrow>
          (case release_notes_loop w' items [] of
             Inl e \<Rightarrow> (Some e, w')
           | Inr rst \<Rightarrow> (None, create_file ''release_notes.rst'' rst w')))"

subsection \<open>Notions for the properties of the release notes\<close>

text \<open>
  The definitions of this subsection are not functions of the script. They name what the
  script computes, so that the properties below can be stated. The first is the condition
  that the directory has no two files of one name.
\<close>

definition well_formed :: "world \<Rightarrow> bool" where
  "well_formed w = distinct (map fst (release_notes_dir w))"

text \<open>The release that \<open>Release\<close> makes of a file, without the log of queries; whether
  it is made without an exception; and whether that holds for every versioned file.\<close>

definition released :: "world \<Rightarrow> string \<Rightarrow> error + release" where
  "released w file = fst (Release file w)"

definition resolves :: "world \<Rightarrow> string \<Rightarrow> bool" where
  "resolves w file = (case released w file of Inl e \<Rightarrow> False | Inr r \<Rightarrow> True)"

definition tags_resolve :: "world \<Rightarrow> bool" where
  "tags_resolve w = list_all (resolves w) (versioned_files w)"

text \<open>The results of a list of computations, up to the first exception.\<close>

fun sequence :: "(error + 'a) list \<Rightarrow> error + 'a list" where
  "sequence [] = Inr []"
| "sequence (x # xs) =
     (case x of
        Inl e \<Rightarrow> Inl e
      | Inr y \<Rightarrow> (case sequence xs of Inl e \<Rightarrow> Inl e | Inr ys \<Rightarrow> Inr (y # ys)))"

text \<open>The tag that \<open>Release\<close> looks up for a file (none for the unreleased notes), and the
  tags that the list comprehension looks up for a list of files: it stops after the first
  file whose release is not made.\<close>

definition query_of :: "string \<Rightarrow> string list" where
  "query_of file = (if stem file = ''unreleased'' then [] else [''v'' @ stem file])"

fun queries :: "world \<Rightarrow> string list \<Rightarrow> string list" where
  "queries w [] = []"
| "queries w (file # files) =
     query_of file @ (if resolves w file then queries w files else [])"

text \<open>The text that \<open>generate_release_notes\<close> hands to \<open>create_file\<close>, or the exception
  that ends it before.\<close>

definition document :: "world \<Rightarrow> error + string" where
  "document w =
     (case sequence (map (released w) (release_notes w)) of
        Inl e \<Rightarrow> Inl e
      | Inr releases \<Rightarrow> release_notes_loop w (previous_release_git_tags releases) [])"

text \<open>The text of a file of the directory, and the text that one pass of the loop appends
  for an item when the file of the item can be read.\<close>

definition contents_of :: "world \<Rightarrow> string \<Rightarrow> string" where
  "contents_of w name = (case read_file w name of Inl e \<Rightarrow> [] | Inr contents \<Rightarrow> contents)"

definition entry_text :: "world \<Rightarrow> release \<times> string option \<Rightarrow> string" where
  "entry_text w item =
     (case item of (r, previous) \<Rightarrow>
        entry_head r previous @ contents_of w (release_notes_file r) @ ''\<newline>'')"

text \<open>No stem of a versioned file is a prefix of the stem of another versioned file.\<close>

definition prefix_free_stems :: "world \<Rightarrow> bool" where
  "prefix_free_stems w =
     (\<forall>f\<in>set (versioned_files w). \<forall>g\<in>set (versioned_files w).
        f \<noteq> g \<longrightarrow> \<not> prefix (stem f) (stem g))"

text \<open>The releases and the items that \<open>get_release_notes_files\<close> yields when every release
  is made.\<close>

definition releases_of :: "world \<Rightarrow> release list" where
  "releases_of w = map (\<lambda>f. projr (released w f)) (release_notes w)"

definition items_of :: "world \<Rightarrow> (release \<times> string option) list" where
  "items_of w = previous_release_git_tags (releases_of w)"

text \<open>The two parts of the head of an entry, as the specification words them: the heading
  with its underline and a blank line, and the line with the link to the changes since the
  previous release.\<close>

definition heading_block :: "release \<Rightarrow> string" where
  "heading_block r =
     version r @ '' ('' @ date r @ '')'' @ ''\<newline>''
     @ replicate (length (version r) + 2 + length (date r) + 1) CHR ''-'' @ ''\<newline>''
     @ ''\<newline>''"

definition diff_link :: "string \<Rightarrow> string \<Rightarrow> string" where
  "diff_link previous tag =
     ''`Changes since previous release <https://gitlab.com/tsfpga/tsfpga/-/compare/''
     @ previous @ ''...'' @ tag @ ''>`__'' @ ''\<newline>''"

text \<open>The date format of the specification, \<^verbatim>\<open>D Month YYYY\<close> with the name of the month
  in lower case.\<close>

definition D_Month_YYYY :: "datetime \<Rightarrow> string" where
  "D_Month_YYYY t =
     str_int (day t) @ '' ''
     @ [''january'', ''february'', ''march'', ''april'', ''may'', ''june'', ''july'',
        ''august'', ''september'', ''october'', ''november'', ''december''] ! nat (month t - 1)
     @ '' '' @ str_int (year t)"

subsection \<open>Example inputs\<close>

text \<open>A directory with the unreleased notes, two versioned notes and a file that is not a
  note, in a time zone one hour ahead of UTC; the tags are of 1 January 2020 and of
  13 September 2020.\<close>

definition example_world :: world where
  "example_world =
     \<lparr>release_notes_dir =
        [(''1.0.0.rst'', ''First release.\<newline>''),
         (''notes.txt'', ''Not a release note.''),
         (''unreleased.rst'', ''Nothing yet.\<newline>''),
         (''2.0.0.rst'', ''Second release.\<newline>'')],
      tags = [''refs/tags/v1.0.0'' \<mapsto> 1577880000, ''refs/tags/v2.0.0'' \<mapsto> 1600000000],
      utcoffset = (\<lambda>t. 3600),
      generated_sphinx = Map.empty,
      tag_queries = []\<rparr>"

text \<open>A directory where the stem of one versioned file is a prefix of the stem of
  another.\<close>

definition prefix_world :: world where
  "prefix_world =
     \<lparr>release_notes_dir =
        [(''unreleased.rst'', ''Nothing yet.\<newline>''),
         (''1.0.rst'', ''First release.\<newline>''),
         (''1.0.1.rst'', ''A fix.\<newline>'')],
      tags = [''refs/tags/v1.0'' \<mapsto> 1577880000, ''refs/tags/v1.0.1'' \<mapsto> 1600000000],
      utcoffset = (\<lambda>t. 3600),
      generated_sphinx = Map.empty,
      tag_queries = []\<rparr>"

text \<open>The example with the tag of version 2.0.0 missing from the repository; the example
  scanned in another order after a first run; and a directory without the unreleased
  notes.\<close>

definition unresolved_world :: world where
  "unresolved_world = example_world\<lparr>tags := [''refs/tags/v1.0.0'' \<mapsto> 1577880000]\<rparr>"

definition rescanned_world :: world where
  "rescanned_world =
     example_world
       \<lparr>release_notes_dir := rev (release_notes_dir example_world),
        generated_sphinx := generated_sphinx (snd (generate_release_notes example_world))\<rparr>"



section \<open>Properties\<close>

subsection \<open>The coverage badge\<close>

text \<open>The rounding to binary64 that \<open>nearest_double\<close> defines: the exponent is the one of the
  binade of the number, and a number in the normal range does not overflow.\<close>

lemma pow2_powi: "pow2 e = 2 powi e"
  by (simp add: pow2_def power_int_def power_one_over inverse_eq_divide)

lemma pow2_pos: "0 < pow2 e"
  by (simp add: pow2_powi)

lemma pow2_add: "pow2 (a + b) = pow2 a * pow2 b"
  by (simp add: pow2_powi power_int_add)

lemma pow2_strict_mono: "a < b \<Longrightarrow> pow2 a < pow2 b"
  by (simp add: pow2_powi power_int_strict_increasing)

lemma pow2_mono: "a \<le> b \<Longrightarrow> pow2 a \<le> pow2 b"
  by (simp add: pow2_powi power_int_increasing)

lemma pow2_nat: "0 \<le> e \<Longrightarrow> pow2 e = of_int (2 ^ nat e)"
  by (simp add: pow2_def)

lemma bitlen_pow2_bounds:
  assumes "0 < a"
  shows "pow2 (bitlen a - 1) \<le> of_int a" and "of_int a < pow2 (bitlen a)"
proof -
  from assms have "bitlen a \<noteq> 0" by (simp add: bitlen_eq_zero_iff)
  with bitlen_nonneg[of a] have l: "1 \<le> bitlen a" by linarith
  from bitlen_bounds[OF assms]
  have b: "2 ^ nat (bitlen a - 1) \<le> a" "a < 2 ^ nat (bitlen a)" by simp_all
  from l have "pow2 (bitlen a - 1) = of_int (2 ^ nat (bitlen a - 1))" by (simp add: pow2_nat)
  also from b(1) have "\<dots> \<le> of_int a" by (simp only: of_int_le_iff)
  finally show "pow2 (bitlen a - 1) \<le> of_int a" .
  from b(2) have "(of_int a :: rat) < of_int (2 ^ nat (bitlen a))" by (simp only: of_int_less_iff)
  also from l have "\<dots> = pow2 (bitlen a)" by (simp add: pow2_nat)
  finally show "of_int a < pow2 (bitlen a)" .
qed

lemma binade_bounds:
  assumes "0 < q"
  shows "pow2 (binade q) \<le> q \<and> q < pow2 (binade q + 1)"
proof -
  obtain a b where ab: "quotient_of q = (a, b)" by (cases "quotient_of q")
  then have b: "0 < b" by (rule quotient_of_denom_pos)
  from ab have q: "q = of_int a / of_int b" by (rule quotient_of_div)
  from assms q b have a: "0 < a" by (simp add: zero_less_divide_iff)
  define k where "k = bitlen a - bitlen b"
  note A = bitlen_pow2_bounds[OF a] and B = bitlen_pow2_bounds[OF b]
  have bq: "of_int a = q * of_int b" using b q by simp
  have "of_int a < pow2 (k + 1) * pow2 (bitlen b - 1)"
    using A(2) by (simp add: k_def flip: pow2_add)
  also have "\<dots> \<le> pow2 (k + 1) * of_int b"
    using B(1) pow2_pos[of "k + 1"] by simp
  finally have "q * of_int b < pow2 (k + 1) * of_int b" by (simp add: bq)
  with b have upper: "q < pow2 (k + 1)" by simp
  have "pow2 (k - 1) * of_int b < pow2 (k - 1) * pow2 (bitlen b)"
    using B(2) pow2_pos[of "k - 1"] by simp
  also have "\<dots> = pow2 (bitlen a - 1)"
    by (simp add: k_def flip: pow2_add)
  also have "\<dots> \<le> q * of_int b" using A(1) by (simp add: bq)
  finally have lower: "pow2 (k - 1) < q" using b by simp
  show ?thesis
  proof (cases "pow2 k \<le> q")
    case True
    then have "binade q = k" by (simp add: binade_def ab k_def)
    with True upper show ?thesis by simp
  next
    case False
    then have "binade q = k - 1" by (simp add: binade_def ab k_def)
    with False lower show ?thesis by simp
  qed
qed

lemma binade_eq:
  assumes "pow2 e \<le> q" and "q < pow2 (e + 1)"
  shows "binade q = e"
proof -
  have "0 < q" using pow2_pos assms(1) by (rule less_le_trans)
  from binade_bounds[OF this]
  have b: "pow2 (binade q) \<le> q" "q < pow2 (binade q + 1)" by simp_all
  show ?thesis
  proof (rule ccontr)
    assume "binade q \<noteq> e"
    then consider "binade q + 1 \<le> e" | "e + 1 \<le> binade q" by linarith
    then show False
    proof cases
      case 1
      then have "pow2 (binade q + 1) \<le> pow2 e" by (rule pow2_mono)
      with assms(1) b(2) show False by simp
    next
      case 2
      then have "pow2 (e + 1) \<le> pow2 (binade q)" by (rule pow2_mono)
      with assms(2) b(1) show False by simp
    qed
  qed
qed

lemma round_half_even_le:
  assumes "q \<le> of_int n"
  shows "round_half_even q \<le> n"
proof -
  have f: "\<lfloor>q\<rfloor> \<le> n" using assms by (simp add: floor_le_iff)
  show ?thesis
  proof (cases "q = of_int \<lfloor>q\<rfloor>")
    case True
    then have "round_half_even q = \<lfloor>q\<rfloor>" by (simp add: round_half_even_def Let_def)
    with f show ?thesis by simp
  next
    case False
    then have "of_int \<lfloor>q\<rfloor> < q" using of_int_floor_le[of q] by (auto simp: less_le)
    with assms have "(of_int \<lfloor>q\<rfloor> :: rat) < of_int n" by simp
    then have "\<lfloor>q\<rfloor> < n" by (simp only: of_int_less_iff)
    then show ?thesis by (simp add: round_half_even_def Let_def)
  qed
qed

lemma nearest_double_eq:
  assumes "pow2 e \<le> q" and "q < pow2 (e + 1)" and "- 1022 \<le> e" and "e \<le> 1022"
  shows "nearest_double q = Finite (of_int (round_half_even (q / pow2 (e - 52))) * pow2 (e - 52))"
proof -
  have q: "0 < q" using pow2_pos assms(1) by (rule less_le_trans)
  have e: "binade q = e" using assms(1,2) by (rule binade_eq)
  define m where "m = round_half_even (q / pow2 (e - 52))"
  have "q / pow2 (e - 52) \<le> pow2 (e + 1) / pow2 (e - 52)"
    using assms(2) pow2_pos[of "e - 52"] by (simp add: divide_le_cancel)
  also have "pow2 (e + 1) = pow2 53 * pow2 (e - 52)"
    using pow2_add[of 53 "e - 52"] by (simp add: add.commute)
  also have "\<dots> / pow2 (e - 52) = pow2 53" using pow2_pos[of "e - 52"] by simp
  also have "\<dots> = of_int (2 ^ 53)" by (simp add: pow2_def)
  finally have "m \<le> 2 ^ 53" unfolding m_def by (rule round_half_even_le)
  then have "(of_int m :: rat) \<le> of_int (2 ^ 53)" by (simp only: of_int_le_iff)
  also have "\<dots> = pow2 53" by (simp add: pow2_def)
  finally have "of_int m * pow2 (e - 52) \<le> pow2 53 * pow2 (e - 52)"
    using pow2_pos[of "e - 52"] by simp
  also have "\<dots> = pow2 (e + 1)"
    using pow2_add[of 53 "e - 52"] by (simp add: add.commute)
  also have "\<dots> < pow2 1024" using assms(4) by (intro pow2_strict_mono) simp
  finally have r: "\<not> pow2 1024 \<le> of_int m * pow2 (e - 52)" by simp
  have mx: "max (binade \<bar>q\<bar>) (- 1022) = e" using q e assms(3) by simp
  have a: "\<bar>q\<bar> = q" "sgn q = 1" "q \<noteq> 0" using q by simp_all
  show ?thesis unfolding nearest_double_def Let_def mx
    using r by (simp add: m_def a)
qed

lemma floor_rat_numeral:
  "\<lfloor>(numeral a :: rat) / numeral b\<rfloor> = numeral a div numeral b"
  using floor_divide_of_int_eq[of "numeral a" "numeral b", where ?'a = rat] by simp

lemma line_coverage_of_085: "line_coverage_of (85 / 100) = Inr 85"
proof -
  have n: "nearest_double (85 / 100) = Finite (7656119366529843 / 9007199254740992)"
    by (subst nearest_double_eq[where e = "- 1"])
      (simp_all add: pow2_def round_half_even_def Let_def floor_rat_numeral)
  show ?thesis
    unfolding line_coverage_of_def n float_times_100_def pyfloat.case
    by (subst nearest_double_eq[where e = 6])
      (simp_all add: pow2_def round_half_even_def Let_def py_round_def floor_rat_numeral)
qed

lemma line_coverage_of_055: "line_coverage_of (55 / 100) = Inr 55"
proof -
  have n: "nearest_double (55 / 100) = Finite (2476979795053773 / 4503599627370496)"
    by (subst nearest_double_eq[where e = "- 1"])
      (simp_all add: pow2_def round_half_even_def Let_def floor_rat_numeral)
  show ?thesis
    unfolding line_coverage_of_def n float_times_100_def pyfloat.case
    by (subst nearest_double_eq[where e = 5])
      (simp_all add: pow2_def round_half_even_def Let_def py_round_def floor_rat_numeral)
qed

lemma line_coverage_of_040: "line_coverage_of (40 / 100) = Inr 40"
proof -
  have n: "nearest_double (40 / 100) = Finite (3602879701896397 / 9007199254740992)"
    by (subst nearest_double_eq[where e = "- 2"])
      (simp_all add: pow2_def round_half_even_def Let_def floor_rat_numeral)
  show ?thesis
    unfolding line_coverage_of_def n float_times_100_def pyfloat.case
    by (subst nearest_double_eq[where e = 5])
      (simp_all add: pow2_def round_half_even_def Let_def py_round_def floor_rat_numeral)
qed

lemma line_coverage_of_half: "line_coverage_of (1 / 2) = Inr 50"
proof -
  have n: "nearest_double (1 / 2) = Finite (1 / 2)"
    by (subst nearest_double_eq[where e = "- 1"])
      (simp_all add: pow2_def round_half_even_def Let_def floor_rat_numeral)
  show ?thesis
    unfolding line_coverage_of_def n float_times_100_def pyfloat.case
    by (subst nearest_double_eq[where e = 5])
      (simp_all add: pow2_def round_half_even_def Let_def py_round_def floor_rat_numeral)
qed

lemma line_coverage_of_four_fifths: "line_coverage_of (4 / 5) = Inr 80"
proof -
  have n: "nearest_double (4 / 5) = Finite (3602879701896397 / 4503599627370496)"
    by (subst nearest_double_eq[where e = "- 1"])
      (simp_all add: pow2_def round_half_even_def Let_def floor_rat_numeral)
  show ?thesis
    unfolding line_coverage_of_def n float_times_100_def pyfloat.case
    by (subst nearest_double_eq[where e = 6])
      (simp_all add: pow2_def round_half_even_def Let_def py_round_def floor_rat_numeral)
qed

lemma str_int_examples: "str_int 85 = ''85''" "str_int 55 = ''55''" "str_int 40 = ''40''"
  "str_int 50 = ''50''" "str_int 80 = ''80''"
  by code_simp+

lemma coverage_badge_of:
  assumes "line_coverage_of line_rate = Inr lc"
  shows "build_python_coverage_badge badge tsfpga_doc output_path (Some line_rate) files =
     (if lc \<le> 50
      then (Some (AssertionError (''Coverage is way low: '' @ str_int lc @ ''. Something is wrong.'')),
            files)
      else (None, files(joinpath output_path ''python_coverage.svg'' \<mapsto> badge
          \<lparr>left_text = ''line coverage'', right_text = str_int lc @ ''%'',
           right_color = (if 80 < lc then ''green'' else ''red''),
           logo = joinpath (joinpath tsfpga_doc ''sphinx'') ''Python-logo-notext.svg'',
           embed_logo = True,
           left_link = ''https://tsfpga.com/python_coverage_html'',
           right_link = ''https://tsfpga.com/python_coverage_html''\<rparr>)))"
  unfolding build_python_coverage_badge_def using assms by (simp add: Let_def)

text \<open>
  Claim C3. A coverage report with line rate 0.85 gives 85 percent and a green badge; one
  with 0.55 gives 55 percent and a red badge; with 0.40 the assertion on the minimum
  coverage fails and no badge is written.
\<close>

theorem coverage_badge_examples:
  "line_coverage_of (85 / 100) = Inr 85
   \<and> build_python_coverage_badge badge tsfpga_doc output_path (Some (85 / 100)) files =
       (None, files(joinpath output_path ''python_coverage.svg'' \<mapsto> badge
          \<lparr>left_text = ''line coverage'', right_text = ''85%'', right_color = ''green'',
           logo = joinpath (joinpath tsfpga_doc ''sphinx'') ''Python-logo-notext.svg'',
           embed_logo = True,
           left_link = ''https://tsfpga.com/python_coverage_html'',
           right_link = ''https://tsfpga.com/python_coverage_html''\<rparr>))
   \<and> line_coverage_of (55 / 100) = Inr 55
   \<and> build_python_coverage_badge badge tsfpga_doc output_path (Some (55 / 100)) files =
       (None, files(joinpath output_path ''python_coverage.svg'' \<mapsto> badge
          \<lparr>left_text = ''line coverage'', right_text = ''55%'', right_color = ''red'',
           logo = joinpath (joinpath tsfpga_doc ''sphinx'') ''Python-logo-notext.svg'',
           embed_logo = True,
           left_link = ''https://tsfpga.com/python_coverage_html'',
           right_link = ''https://tsfpga.com/python_coverage_html''\<rparr>))
   \<and> line_coverage_of (40 / 100) = Inr 40
   \<and> build_python_coverage_badge badge tsfpga_doc output_path (Some (40 / 100)) files =
       (Some (AssertionError ''Coverage is way low: 40. Something is wrong.''), files)"
proof -
  note a = coverage_badge_of[OF line_coverage_of_085, of badge tsfpga_doc output_path files]
  note b = coverage_badge_of[OF line_coverage_of_055, of badge tsfpga_doc output_path files]
  note c = coverage_badge_of[OF line_coverage_of_040, of badge tsfpga_doc output_path files]
  have a': "build_python_coverage_badge badge tsfpga_doc output_path (Some (85 / 100)) files =
       (None, files(joinpath output_path ''python_coverage.svg'' \<mapsto> badge
          \<lparr>left_text = ''line coverage'', right_text = ''85%'', right_color = ''green'',
           logo = joinpath (joinpath tsfpga_doc ''sphinx'') ''Python-logo-notext.svg'',
           embed_logo = True,
           left_link = ''https://tsfpga.com/python_coverage_html'',
           right_link = ''https://tsfpga.com/python_coverage_html''\<rparr>))"
    unfolding a by (simp only: str_int_examples) simp
  have b': "build_python_coverage_badge badge tsfpga_doc output_path (Some (55 / 100)) files =
       (None, files(joinpath output_path ''python_coverage.svg'' \<mapsto> badge
          \<lparr>left_text = ''line coverage'', right_text = ''55%'', right_color = ''red'',
           logo = joinpath (joinpath tsfpga_doc ''sphinx'') ''Python-logo-notext.svg'',
           embed_logo = True,
           left_link = ''https://tsfpga.com/python_coverage_html'',
           right_link = ''https://tsfpga.com/python_coverage_html''\<rparr>))"
    unfolding b by (simp only: str_int_examples) simp
  have c': "build_python_coverage_badge badge tsfpga_doc output_path (Some (40 / 100)) files =
       (Some (AssertionError ''Coverage is way low: 40. Something is wrong.''), files)"
    unfolding c by (simp only: str_int_examples) simp
  from a' b' c' line_coverage_of_085 line_coverage_of_055 line_coverage_of_040
  show ?thesis by (intro conjI)
qed


text \<open>
  Claim C9. The thresholds are strict: a line rate that rounds to 50 percent fails the
  assertion, which passes exactly for a percentage above 50; a line rate that rounds to 80
  percent gives the red badge, and the badge is green exactly above 80.
\<close>

theorem coverage_thresholds_strict:
  assumes "line_coverage_of line_rate = Inr lc"
  shows "(lc = 50 \<longrightarrow>
            build_python_coverage_badge badge tsfpga_doc output_path (Some line_rate) files =
              (Some (AssertionError ''Coverage is way low: 50. Something is wrong.''), files))
       \<and> (fst (build_python_coverage_badge badge tsfpga_doc output_path (Some line_rate) files) = None
            \<longleftrightarrow> 50 < lc)
       \<and> (lc = 80 \<longrightarrow>
            build_python_coverage_badge badge tsfpga_doc output_path (Some line_rate) files =
              (None, files(joinpath output_path ''python_coverage.svg'' \<mapsto> badge
                 \<lparr>left_text = ''line coverage'', right_text = ''80%'', right_color = ''red'',
                  logo = joinpath (joinpath tsfpga_doc ''sphinx'') ''Python-logo-notext.svg'',
                  embed_logo = True,
                  left_link = ''https://tsfpga.com/python_coverage_html'',
                  right_link = ''https://tsfpga.com/python_coverage_html''\<rparr>)))
       \<and> (50 < lc \<longrightarrow>
            build_python_coverage_badge badge tsfpga_doc output_path (Some line_rate) files =
              (None, files(joinpath output_path ''python_coverage.svg'' \<mapsto> badge
                 \<lparr>left_text = ''line coverage'', right_text = str_int lc @ ''%'',
                  right_color = (if 80 < lc then ''green'' else ''red''),
                  logo = joinpath (joinpath tsfpga_doc ''sphinx'') ''Python-logo-notext.svg'',
                  embed_logo = True,
                  left_link = ''https://tsfpga.com/python_coverage_html'',
                  right_link = ''https://tsfpga.com/python_coverage_html''\<rparr>)))"
proof -
  note eq = coverage_badge_of[OF assms, of badge tsfpga_doc output_path files]
  have 1: "lc = 50 \<longrightarrow>
            build_python_coverage_badge badge tsfpga_doc output_path (Some line_rate) files =
              (Some (AssertionError ''Coverage is way low: 50. Something is wrong.''), files)"
    unfolding eq by (auto simp only: str_int_examples) simp
  have 2: "fst (build_python_coverage_badge badge tsfpga_doc output_path (Some line_rate) files) = None
            \<longleftrightarrow> 50 < lc"
    unfolding eq by auto
  have 3: "lc = 80 \<longrightarrow>
            build_python_coverage_badge badge tsfpga_doc output_path (Some line_rate) files =
              (None, files(joinpath output_path ''python_coverage.svg'' \<mapsto> badge
                 \<lparr>left_text = ''line coverage'', right_text = ''80%'', right_color = ''red'',
                  logo = joinpath (joinpath tsfpga_doc ''sphinx'') ''Python-logo-notext.svg'',
                  embed_logo = True,
                  left_link = ''https://tsfpga.com/python_coverage_html'',
                  right_link = ''https://tsfpga.com/python_coverage_html''\<rparr>))"
    unfolding eq by (auto simp only: str_int_examples) simp
  have 4: "50 < lc \<longrightarrow>
            build_python_coverage_badge badge tsfpga_doc output_path (Some line_rate) files =
              (None, files(joinpath output_path ''python_coverage.svg'' \<mapsto> badge
                 \<lparr>left_text = ''line coverage'', right_text = str_int lc @ ''%'',
                  right_color = (if 80 < lc then ''green'' else ''red''),
                  logo = joinpath (joinpath tsfpga_doc ''sphinx'') ''Python-logo-notext.svg'',
                  embed_logo = True,
                  left_link = ''https://tsfpga.com/python_coverage_html'',
                  right_link = ''https://tsfpga.com/python_coverage_html''\<rparr>))"
    unfolding eq by simp
  from 1 2 3 4 show ?thesis by (intro conjI)
qed

theorem coverage_thresholds_strict_witness:
  "line_coverage_of (1 / 2) = Inr 50
   \<and> build_python_coverage_badge right_color ''doc'' ''badges'' (Some (1 / 2)) Map.empty =
       (Some (AssertionError ''Coverage is way low: 50. Something is wrong.''), Map.empty)
   \<and> line_coverage_of (4 / 5) = Inr 80
   \<and> fst (build_python_coverage_badge right_color ''doc'' ''badges'' (Some (4 / 5)) Map.empty) = None
   \<and> the (snd (build_python_coverage_badge right_color ''doc'' ''badges'' (Some (4 / 5)) Map.empty)
        ''badges/python_coverage.svg'') = ''red''"
proof -
  note a = coverage_thresholds_strict[OF line_coverage_of_half, of right_color "''doc''" "''badges''" Map.empty]
  note b = coverage_thresholds_strict[OF line_coverage_of_four_fifths, of right_color "''doc''" "''badges''" Map.empty]
  from a have a': "build_python_coverage_badge right_color ''doc'' ''badges'' (Some (1 / 2)) Map.empty =
       (Some (AssertionError ''Coverage is way low: 50. Something is wrong.''), Map.empty)"
    by blast
  from b have b1: "fst (build_python_coverage_badge right_color ''doc'' ''badges'' (Some (4 / 5)) Map.empty) = None"
    by simp
  from b have "build_python_coverage_badge right_color ''doc'' ''badges'' (Some (4 / 5)) Map.empty =
      (None, Map.empty(joinpath ''badges'' ''python_coverage.svg'' \<mapsto> right_color
                 \<lparr>left_text = ''line coverage'', right_text = ''80%'', right_color = ''red'',
                  logo = joinpath (joinpath ''doc'' ''sphinx'') ''Python-logo-notext.svg'',
                  embed_logo = True,
                  left_link = ''https://tsfpga.com/python_coverage_html'',
                  right_link = ''https://tsfpga.com/python_coverage_html''\<rparr>))"
    by blast
  then have b2: "the (snd (build_python_coverage_badge right_color ''doc'' ''badges'' (Some (4 / 5)) Map.empty)
        ''badges/python_coverage.svg'') = ''red''"
    by (simp add: joinpath_def)
  from a' b1 b2 line_coverage_of_half line_coverage_of_four_fifths show ?thesis by (intro conjI)
qed

subsection \<open>The main function\<close>

lemma run_steps_Nil: "run_steps exec [] r = r"
  by (simp add: run_steps_def)

lemma run_steps_Cons: "run_steps exec (s # steps) r = run_steps exec steps (call exec s r)"
  by (simp add: run_steps_def)

lemma call_raised: "raised r \<noteq> None \<Longrightarrow> call exec s r = r"
  by (auto simp: call_def)

lemma run_steps_raised: "raised r \<noteq> None \<Longrightarrow> run_steps exec steps r = r"
  by (induction steps) (simp_all add: run_steps_Nil run_steps_Cons call_raised)

lemma main_run_steps:
  "main exec args w =
     run_steps exec (documentation_steps @ (if skip_coverage args then [] else coverage_steps))
       \<lparr>calls = [], state = w, raised = None\<rparr>"
  by (simp add: main_def run_steps_def documentation_steps_def coverage_steps_def Let_def)

lemma run_steps_execute:
  "run_steps exec steps \<lparr>calls = cs, state = w, raised = None\<rparr> =
     \<lparr>calls = cs @ calls (execute exec steps w), state = state (execute exec steps w),
      raised = raised (execute exec steps w)\<rparr>"
proof (induction steps arbitrary: cs w)
  case Nil
  show ?case by (simp add: run_steps_Nil)
next
  case (Cons s steps)
  obtain e w' where x: "exec s w = (e, w')" by (cases "exec s w")
  have c: "call exec s \<lparr>calls = cs, state = w, raised = None\<rparr> =
             \<lparr>calls = cs @ [s], state = w', raised = e\<rparr>"
    by (simp add: call_def x)
  show ?case
  proof (cases e)
    case None
    with x c Cons.IH[of "cs @ [s]" w'] show ?thesis
      by (simp add: run_steps_Cons Let_def)
  next
    case (Some err)
    with x c show ?thesis
      by (simp add: run_steps_Cons run_steps_raised)
  qed
qed

lemma main_execute:
  "main exec args w =
     execute exec (documentation_steps @ (if skip_coverage args then [] else coverage_steps)) w"
  by (simp add: main_run_steps run_steps_execute)

lemma execute_append:
  "execute exec (xs @ ys) w =
     (if raised (execute exec xs w) = None
      then \<lparr>calls = calls (execute exec xs w) @ calls (execute exec ys (state (execute exec xs w))),
            state = state (execute exec ys (state (execute exec xs w))),
            raised = raised (execute exec ys (state (execute exec xs w)))\<rparr>
      else execute exec xs w)"
proof (induction xs arbitrary: w)
  case Nil
  show ?case by simp
next
  case (Cons s xs)
  obtain e w' where x: "exec s w = (e, w')" by (cases "exec s w")
  show ?case
  proof (cases e)
    case None
    with x Cons.IH[of w'] show ?thesis by (simp add: Let_def)
  next
    case (Some err)
    with x show ?thesis by simp
  qed
qed

lemma execute_calls_subset: "set (calls (execute exec steps w)) \<subseteq> set steps"
proof (induction steps arbitrary: w)
  case Nil
  show ?case by simp
next
  case (Cons s steps)
  obtain e w' where x: "exec s w = (e, w')" by (cases "exec s w")
  show ?case
  proof (cases e)
    case None
    with x Cons.IH[of w'] show ?thesis by (auto simp: Let_def)
  next
    case (Some err)
    with x show ?thesis by simp
  qed
qed

lemma execute_ok:
  "raised (execute exec steps w) = None \<Longrightarrow>
     calls (execute exec steps w) = steps
     \<and> state (execute exec steps w) = foldl (\<lambda>w s. snd (exec s w)) w steps"
proof (induction steps arbitrary: w)
  case Nil
  show ?case by simp
next
  case (Cons s steps)
  obtain e w' where x: "exec s w = (e, w')" by (cases "exec s w")
  show ?case
  proof (cases e)
    case None
    with x Cons.prems have "raised (execute exec steps w') = None" by (simp add: Let_def)
    from Cons.IH[OF this] None x show ?thesis by (simp add: Let_def)
  next
    case (Some err)
    with x Cons.prems show ?thesis by simp
  qed
qed

text \<open>
  Claim C8. \<open>main\<close> runs the eight documentation steps and, without the flag, the two
  coverage steps after them: its calls, its state and its exception are those of applying
  \<open>exec\<close> to these steps in order. With the flag \<^verbatim>\<open>--skip-coverage\<close> neither coverage step
  is called. The documentation steps are the same with and without the flag: when one of
  them raises, both runs are equal; when none raises, the run with the flag has applied
  \<open>exec\<close> to each of the eight in turn, and the run without the flag continues from that
  state with the two coverage steps.
\<close>

theorem main_skip_coverage:
  "main exec args w =
     execute exec (documentation_steps @ (if skip_coverage args then [] else coverage_steps)) w
   \<and> (skip_coverage args \<longrightarrow>
        Build_python_coverage_badge \<notin> set (calls (main exec args w))
        \<and> Copy_python_coverage_to_html_output \<notin> set (calls (main exec args w)))
   \<and> (raised (main exec \<lparr>skip_coverage = True\<rparr> w) \<noteq> None \<longrightarrow>
        main exec \<lparr>skip_coverage = False\<rparr> w = main exec \<lparr>skip_coverage = True\<rparr> w)
   \<and> (raised (main exec \<lparr>skip_coverage = True\<rparr> w) = None \<longrightarrow>
        calls (main exec \<lparr>skip_coverage = True\<rparr> w) = documentation_steps
        \<and> state (main exec \<lparr>skip_coverage = True\<rparr> w) =
            snd (exec Build_information_badges
              (snd (exec Create_badges_directory
                (snd (exec Build_sphinx
                  (snd (exec Generate_sphinx_index
                    (snd (exec Generate_apidoc
                      (snd (exec Generate_release_notes
                        (snd (exec Generate_registers
                          (snd (exec Delete_sphinx_html w)))))))))))))))
        \<and> main exec \<lparr>skip_coverage = False\<rparr> w =
            \<lparr>calls = documentation_steps
                 @ calls (execute exec coverage_steps (state (main exec \<lparr>skip_coverage = True\<rparr> w))),
             state = state (execute exec coverage_steps (state (main exec \<lparr>skip_coverage = True\<rparr> w))),
             raised = raised (execute exec coverage_steps (state (main exec \<lparr>skip_coverage = True\<rparr> w)))\<rparr>)
   \<and> (raised (main exec \<lparr>skip_coverage = False\<rparr> w) = None \<longrightarrow>
        calls (main exec \<lparr>skip_coverage = False\<rparr> w) = documentation_steps @ coverage_steps
        \<and> state (main exec \<lparr>skip_coverage = False\<rparr> w) =
            snd (exec Copy_python_coverage_to_html_output
              (snd (exec Build_python_coverage_badge
                (state (main exec \<lparr>skip_coverage = True\<rparr> w))))))"
proof -
  let ?skip = "main exec \<lparr>skip_coverage = True\<rparr> w"
  let ?full = "main exec \<lparr>skip_coverage = False\<rparr> w"
  have skip: "?skip = execute exec documentation_steps w" by (simp add: main_execute)
  have full: "?full = execute exec (documentation_steps @ coverage_steps) w"
    by (simp add: main_execute)
  have 1: "main exec args w =
     execute exec (documentation_steps @ (if skip_coverage args then [] else coverage_steps)) w"
    by (rule main_execute)
  have 2: "skip_coverage args \<longrightarrow>
        Build_python_coverage_badge \<notin> set (calls (main exec args w))
        \<and> Copy_python_coverage_to_html_output \<notin> set (calls (main exec args w))"
  proof
    assume a: "skip_coverage args"
    then have "set (calls (main exec args w)) \<subseteq> set documentation_steps"
      using execute_calls_subset[of exec documentation_steps w] by (simp add: main_execute)
    then show "Build_python_coverage_badge \<notin> set (calls (main exec args w))
        \<and> Copy_python_coverage_to_html_output \<notin> set (calls (main exec args w))"
      by (auto simp: documentation_steps_def)
  qed
  have 3: "raised ?skip \<noteq> None \<longrightarrow> ?full = ?skip"
    unfolding full skip by (simp add: execute_append)
  have 4: "raised ?skip = None \<longrightarrow>
        calls ?skip = documentation_steps
        \<and> state ?skip =
            snd (exec Build_information_badges
              (snd (exec Create_badges_directory
                (snd (exec Build_sphinx
                  (snd (exec Generate_sphinx_index
                    (snd (exec Generate_apidoc
                      (snd (exec Generate_release_notes
                        (snd (exec Generate_registers
                          (snd (exec Delete_sphinx_html w)))))))))))))))
        \<and> ?full =
            \<lparr>calls = documentation_steps @ calls (execute exec coverage_steps (state ?skip)),
             state = state (execute exec coverage_steps (state ?skip)),
             raised = raised (execute exec coverage_steps (state ?skip))\<rparr>"
  proof
    assume a: "raised ?skip = None"
    then have r: "raised (execute exec documentation_steps w) = None" by (simp add: skip)
    note ok = execute_ok[OF r]
    from ok have c: "calls ?skip = documentation_steps" by (simp add: skip)
    from ok have s: "state ?skip =
            snd (exec Build_information_badges
              (snd (exec Create_badges_directory
                (snd (exec Build_sphinx
                  (snd (exec Generate_sphinx_index
                    (snd (exec Generate_apidoc
                      (snd (exec Generate_release_notes
                        (snd (exec Generate_registers
                          (snd (exec Delete_sphinx_html w)))))))))))))))"
      by (simp add: skip documentation_steps_def)
    have f: "?full =
            \<lparr>calls = documentation_steps @ calls (execute exec coverage_steps (state ?skip)),
             state = state (execute exec coverage_steps (state ?skip)),
             raised = raised (execute exec coverage_steps (state ?skip))\<rparr>"
      unfolding full execute_append using r ok by (simp add: skip)
    from c s f show "calls ?skip = documentation_steps
        \<and> state ?skip =
            snd (exec Build_information_badges
              (snd (exec Create_badges_directory
                (snd (exec Build_sphinx
                  (snd (exec Generate_sphinx_index
                    (snd (exec Generate_apidoc
                      (snd (exec Generate_release_notes
                        (snd (exec Generate_registers
                          (snd (exec Delete_sphinx_html w)))))))))))))))
        \<and> ?full =
            \<lparr>calls = documentation_steps @ calls (execute exec coverage_steps (state ?skip)),
             state = state (execute exec coverage_steps (state ?skip)),
             raised = raised (execute exec coverage_steps (state ?skip))\<rparr>"
      by (intro conjI)
  qed
  have 5: "raised ?full = None \<longrightarrow>
        calls ?full = documentation_steps @ coverage_steps
        \<and> state ?full =
            snd (exec Copy_python_coverage_to_html_output
              (snd (exec Build_python_coverage_badge (state ?skip))))"
  proof
    assume a: "raised ?full = None"
    then have r: "raised (execute exec (documentation_steps @ coverage_steps) w) = None"
      by (simp add: full)
    note ok = execute_ok[OF r]
    have rs: "raised (execute exec documentation_steps w) = None"
      using r by (simp add: execute_append split: if_splits)
    note oks = execute_ok[OF rs]
    from ok have c: "calls ?full = documentation_steps @ coverage_steps" by (simp add: full)
    from ok oks have s: "state ?full =
            snd (exec Copy_python_coverage_to_html_output
              (snd (exec Build_python_coverage_badge (state ?skip))))"
      by (simp add: full skip coverage_steps_def)
    from c s show "calls ?full = documentation_steps @ coverage_steps
        \<and> state ?full =
            snd (exec Copy_python_coverage_to_html_output
              (snd (exec Build_python_coverage_badge (state ?skip))))"
      by (intro conjI)
  qed
  from 1 2 3 4 5 show ?thesis by (intro conjI)
qed

text \<open>Steps that count how often they are applied: eight with the flag, ten without; and a
  run where the sphinx build raises.\<close>

theorem main_skip_coverage_witness:
  "main (\<lambda>s n. (None, Suc n)) \<lparr>skip_coverage = True\<rparr> (0::nat) =
     \<lparr>calls = documentation_steps, state = 8, raised = None\<rparr>
   \<and> main (\<lambda>s n. (None, Suc n)) \<lparr>skip_coverage = False\<rparr> (0::nat) =
     \<lparr>calls = documentation_steps @ coverage_steps, state = 10, raised = None\<rparr>
   \<and> Build_python_coverage_badge \<notin> set (calls (main (\<lambda>s n. (None, Suc n)) \<lparr>skip_coverage = True\<rparr> (0::nat)))
   \<and> Copy_python_coverage_to_html_output \<notin> set (calls (main (\<lambda>s n. (None, Suc n)) \<lparr>skip_coverage = True\<rparr> (0::nat)))
   \<and> main (\<lambda>s n. (if s = Build_sphinx then Some (CalledProcessError ''sphinx'') else None, Suc n))
         \<lparr>skip_coverage = False\<rparr> (0::nat) =
     \<lparr>calls = [Delete_sphinx_html, Generate_registers, Generate_release_notes, Generate_apidoc,
                Generate_sphinx_index, Build_sphinx],
      state = 6, raised = Some (CalledProcessError ''sphinx'')\<rparr>"
proof -
  let ?exec = "\<lambda>(s::step) (n::nat). (None :: error option, Suc n)"
  let ?fail = "\<lambda>(s::step) (n::nat).
     (if s = Build_sphinx then Some (CalledProcessError ''sphinx'') else None, Suc n)"
  note t = main_skip_coverage[where exec = ?exec and w = 0 and args = "\<lparr>skip_coverage = True\<rparr>"]
  note f = main_skip_coverage[where exec = ?exec and w = 0 and args = "\<lparr>skip_coverage = False\<rparr>"]
  note x = main_skip_coverage[where exec = ?fail and w = 0 and args = "\<lparr>skip_coverage = False\<rparr>"]
  have e1: "execute ?exec documentation_steps 0 =
     \<lparr>calls = documentation_steps, state = 8, raised = None\<rparr>"
    by (simp add: documentation_steps_def Let_def eval_nat_numeral)
  have e2: "execute ?exec (documentation_steps @ coverage_steps) 0 =
     \<lparr>calls = documentation_steps @ coverage_steps, state = 10, raised = None\<rparr>"
    by (simp add: documentation_steps_def coverage_steps_def Let_def eval_nat_numeral)
  have e3: "execute ?fail (documentation_steps @ coverage_steps) 0 =
     \<lparr>calls = [Delete_sphinx_html, Generate_registers, Generate_release_notes, Generate_apidoc,
                Generate_sphinx_index, Build_sphinx],
      state = 6, raised = Some (CalledProcessError ''sphinx'')\<rparr>"
    by (simp add: documentation_steps_def coverage_steps_def Let_def eval_nat_numeral)
  from t[THEN conjunct1] e1 have 1: "main ?exec \<lparr>skip_coverage = True\<rparr> 0 =
     \<lparr>calls = documentation_steps, state = 8, raised = None\<rparr>"
    by simp
  from f[THEN conjunct1] e2 have 2: "main ?exec \<lparr>skip_coverage = False\<rparr> 0 =
     \<lparr>calls = documentation_steps @ coverage_steps, state = 10, raised = None\<rparr>"
    by simp
  from t[THEN conjunct2, THEN conjunct1]
  have 3: "Build_python_coverage_badge \<notin> set (calls (main ?exec \<lparr>skip_coverage = True\<rparr> 0))"
    and 4: "Copy_python_coverage_to_html_output \<notin> set (calls (main ?exec \<lparr>skip_coverage = True\<rparr> 0))"
    by simp_all
  from x[THEN conjunct1] e3 have 5: "main ?fail \<lparr>skip_coverage = False\<rparr> 0 =
     \<lparr>calls = [Delete_sphinx_html, Generate_registers, Generate_release_notes, Generate_apidoc,
                Generate_sphinx_index, Build_sphinx],
      state = 6, raised = Some (CalledProcessError ''sphinx'')\<rparr>"
    by simp
  from 1 2 3 4 5 show ?thesis by (intro conjI)
qed

subsection \<open>Release notes: the script and the notions\<close>

lemma rfind_rst: "rfind CHR ''.'' (p @ ''.rst'') = Some (length p)"
  by (simp add: rfind_def)

lemma stem_rst: "stem (p @ ''.rst'') = (if p = [] then ''.rst'' else p)"
  by (simp add: stem_def rfind_rst)

lemma stem_unreleased_iff:
  assumes "suffix ''.rst'' name"
  shows "stem name = ''unreleased'' \<longleftrightarrow> name = unreleased_notes_file"
proof -
  from assms obtain p where p: "name = p @ ''.rst''" by (auto simp: suffix_def)
  show ?thesis by (auto simp: p stem_rst unreleased_notes_file_def)
qed

lemma stem_unreleased_notes_file: "stem unreleased_notes_file = ''unreleased''"
  using stem_rst[of "''unreleased''"] by (simp add: unreleased_notes_file_def)

lemma stem_dot_rst: "stem ''.rst'' = ''.rst''"
  using stem_rst[of "[]"] by simp

lemma name_stem:
  assumes "suffix ''.rst'' name"
  shows "\<exists>x. name = stem name @ x"
proof -
  from assms obtain p where p: "name = p @ ''.rst''" by (auto simp: suffix_def)
  show ?thesis by (cases "p = []") (auto simp: p stem_rst stem_dot_rst)
qed

lemma versioned_files_suffix: "file \<in> set (versioned_files w) \<Longrightarrow> suffix ''.rst'' file"
  by (auto simp: versioned_files_def glob_rst_def)

lemma versioned_files_stem:
  "file \<in> set (versioned_files w) \<Longrightarrow> stem file \<noteq> ''unreleased''"
  using stem_unreleased_iff[of "file"] by (auto simp: versioned_files_def glob_rst_def)

lemma git_date_cong:
  "tags w' = tags w \<Longrightarrow> utcoffset w' = utcoffset w \<Longrightarrow> git_date w' tag = git_date w tag"
  by (simp add: git_date_def split: option.splits)

lemma Release_eq:
  "Release file w = (released w file, w\<lparr>tag_queries := tag_queries w @ query_of file\<rparr>)"
  by (auto simp: released_def Release_def get_git_date_from_tag_def query_of_def Let_def
      split: sum.splits)

lemma released_eq:
  "released w file =
     (if stem file = ''unreleased''
      then Inr \<lparr>release_notes_file = file, version = ''Unreleased'', git_tag = ''master'',
                date = ''YYYY-MM-DD''\<rparr>
      else (case git_date w (''v'' @ stem file) of
              Inl e \<Rightarrow> Inl e
            | Inr d \<Rightarrow> Inr \<lparr>release_notes_file = file, version = stem file,
                            git_tag = ''v'' @ stem file, date = d\<rparr>))"
  by (auto simp: released_def Release_def get_git_date_from_tag_def Let_def split: sum.splits)

lemma released_cong:
  "tags w' = tags w \<Longrightarrow> utcoffset w' = utcoffset w \<Longrightarrow> released w' file = released w file"
  by (simp add: released_eq git_date_cong[of w' w])

lemma resolves_cong:
  "tags w' = tags w \<Longrightarrow> utcoffset w' = utcoffset w \<Longrightarrow> resolves w' file = resolves w file"
  by (simp add: resolves_def released_cong[of w' w])

lemma queries_cong:
  "tags w' = tags w \<Longrightarrow> utcoffset w' = utcoffset w \<Longrightarrow> queries w' files = queries w files"
  by (induction files) (simp_all add: resolves_cong[of w' w])

lemma Releases_eq:
  "Releases files w =
     (sequence (map (released w) files), w\<lparr>tag_queries := tag_queries w @ queries w files\<rparr>)"
proof (induction files arbitrary: w)
  case Nil
  show ?case by simp
next
  case (Cons f files)
  let ?w' = "w\<lparr>tag_queries := tag_queries w @ query_of f\<rparr>"
  have c: "tags ?w' = tags w" "utcoffset ?w' = utcoffset w" by simp_all
  note r = released_cong[OF c] queries_cong[OF c]
  show ?case
  proof (cases "released w f")
    case (Inl e)
    then show ?thesis by (simp add: Release_eq resolves_def)
  next
    case (Inr rel)
    then show ?thesis
      by (simp add: Release_eq Cons.IH[of ?w'] r resolves_def split: sum.splits)
  qed
qed

lemma read_file_cong:
  "release_notes_dir w' = release_notes_dir w \<Longrightarrow> read_file w' name = read_file w name"
  by (simp add: read_file_def)

lemma release_notes_loop_cong:
  "release_notes_dir w' = release_notes_dir w \<Longrightarrow>
     release_notes_loop w' items rst = release_notes_loop w items rst"
  by (induction w items rst rule: release_notes_loop.induct)
    (simp_all add: read_file_cong[of w'] Let_def split: sum.splits)

lemma generate_release_notes_eq:
  "generate_release_notes w =
     (case document w of
        Inl e \<Rightarrow> (Some e, w\<lparr>tag_queries := tag_queries w @ queries w (release_notes w)\<rparr>)
      | Inr rst \<Rightarrow>
          (None, create_file ''release_notes.rst'' rst
                   (w\<lparr>tag_queries := tag_queries w @ queries w (release_notes w)\<rparr>)))"
proof -
  let ?w' = "w\<lparr>tag_queries := tag_queries w @ queries w (release_notes w)\<rparr>"
  have "release_notes_dir ?w' = release_notes_dir w" by simp
  note l = release_notes_loop_cong[OF this]
  show ?thesis
    by (simp add: generate_release_notes_def get_release_notes_files_def Releases_eq document_def l
        split: sum.splits)
qed

lemma append_less_iff:
  fixes a b :: "'a::linorder list"
  shows "\<not> prefix a b \<Longrightarrow> \<not> prefix b a \<Longrightarrow> (a @ x < b @ y) = (a < b)"
proof (induction a arbitrary: b)
  case Nil
  then show ?case by simp
next
  case (Cons c a)
  show ?case
  proof (cases b)
    case Nil
    with Cons.prems show ?thesis by simp
  next
    case b: (Cons d b')
    show ?thesis
    proof (cases "c = d")
      case True
      with Cons.prems b have "\<not> prefix a b'" "\<not> prefix b' a" by simp_all
      from Cons.IH[OF this] True b show ?thesis by simp
    next
      case False
      with b show ?thesis by simp
    qed
  qed
qed

lemma distinct_glob_rst: "well_formed w \<Longrightarrow> distinct (glob_rst w)"
  by (simp add: well_formed_def glob_rst_def)

lemma distinct_versioned_files: "well_formed w \<Longrightarrow> distinct (versioned_files w)"
  by (simp add: versioned_files_def distinct_glob_rst)

lemma versioned_descending:
  assumes "well_formed w"
  shows "sorted_wrt (>) (rev (sort (versioned_files w)))"
proof -
  from assms have "distinct (sort (versioned_files w))" by (simp add: distinct_versioned_files)
  then have "sorted_wrt (<) (sort (versioned_files w))" by (simp add: strict_sorted_iff)
  then show ?thesis by (simp add: sorted_wrt_rev)
qed

lemma stems_descending:
  assumes "well_formed w" and "prefix_free_stems w"
  shows "sorted_wrt (>) (map stem (rev (sort (versioned_files w))))"
proof -
  have "sorted_wrt (\<lambda>f g. stem f > stem g) (rev (sort (versioned_files w)))"
  proof (rule sorted_wrt_mono_rel[OF _ versioned_descending[OF assms(1)]])
    fix f g
    assume f: "f \<in> set (rev (sort (versioned_files w)))"
      and g: "g \<in> set (rev (sort (versioned_files w)))" and gt: "f > g"
    then have fv: "f \<in> set (versioned_files w)" and gv: "g \<in> set (versioned_files w)"
      by simp_all
    from gt have ne: "f \<noteq> g" by auto
    have pf: "\<not> prefix (stem a) (stem b)"
      if "a \<in> set (versioned_files w)" "b \<in> set (versioned_files w)" "a \<noteq> b" for a b
      using assms(2) that by (auto simp: prefix_free_stems_def)
    from ne have ne': "g \<noteq> f" by simp
    note np = pf[OF fv gv ne] pf[OF gv fv ne']
    from name_stem[OF versioned_files_suffix[OF fv]] obtain x where x: "f = stem f @ x" by blast
    from name_stem[OF versioned_files_suffix[OF gv]] obtain y where y: "g = stem g @ y" by blast
    from gt have "stem g @ y < stem f @ x" using x y by simp
    with append_less_iff[OF np(2) np(1)] show "stem f > stem g" by simp
  qed
  then show ?thesis by (simp add: sorted_wrt_map)
qed

lemma sequence_Inr:
  "(\<forall>x\<in>set xs. \<exists>y. f x = Inr y) \<Longrightarrow> sequence (map f xs) = Inr (map (\<lambda>x. projr (f x)) xs)"
  by (induction xs) auto

lemma sequence_Inl:
  "(\<forall>x\<in>set xs. \<exists>y. f x = Inr y) \<Longrightarrow> f z = Inl e \<Longrightarrow> sequence (map f (xs @ z # zs)) = Inl e"
  by (induction xs) auto

lemma resolves_iff: "resolves w f \<longleftrightarrow> (\<exists>r. released w f = Inr r)"
  by (auto simp: resolves_def split: sum.splits)

lemma resolves_unreleased: "resolves w unreleased_notes_file"
  by (simp add: resolves_iff released_eq stem_unreleased_notes_file)

lemma released_versioned:
  assumes "f \<in> set (versioned_files w)"
  shows "released w f =
     (case git_date w (''v'' @ stem f) of
        Inl e \<Rightarrow> Inl e
      | Inr d \<Rightarrow> Inr \<lparr>release_notes_file = f, version = stem f, git_tag = ''v'' @ stem f, date = d\<rparr>)"
  using versioned_files_stem[OF assms] by (simp add: released_eq)

lemma all_resolve:
  assumes "tags_resolve w"
  shows "\<forall>f\<in>set (release_notes w). \<exists>r. released w f = Inr r"
  using assms resolves_unreleased[of w]
  by (auto simp: tags_resolve_def release_notes_def list_all_iff resolves_iff)

lemma released_file: "released w f = Inr r \<Longrightarrow> release_notes_file r = f"
  by (auto simp: released_eq split: if_splits sum.splits)

lemma released_version:
  "released w f = Inr r \<Longrightarrow> version r = (if stem f = ''unreleased'' then ''Unreleased'' else stem f)"
  by (auto simp: released_eq split: if_splits sum.splits)

lemma released_git_tag:
  "released w f = Inr r \<Longrightarrow> git_tag r = (if stem f = ''unreleased'' then ''master'' else ''v'' @ stem f)"
  by (auto simp: released_eq split: if_splits sum.splits)

lemma previous_release_git_tags_length [simp]:
  "length (previous_release_git_tags releases) = length releases"
  by (simp add: previous_release_git_tags_def)

lemma previous_release_git_tags_nth:
  "i < length releases \<Longrightarrow>
     previous_release_git_tags releases ! i =
       (releases ! i, if Suc i = length releases then None else Some (git_tag (releases ! Suc i)))"
  by (auto simp: previous_release_git_tags_def)

lemma map_fst_previous_release_git_tags [simp]:
  "map fst (previous_release_git_tags releases) = releases"
  by (rule nth_equalityI) (simp_all add: previous_release_git_tags_nth)

lemma release_notes_loop_ok:
  "(\<forall>item\<in>set items. \<exists>c. read_file w (release_notes_file (fst item)) = Inr c) \<Longrightarrow>
     release_notes_loop w items rst = Inr (rst @ concat (map (entry_text w) items))"
  by (induction w items rst rule: release_notes_loop.induct)
    (auto simp: entry_text_def contents_of_def Let_def)

lemma release_notes_loop_missing:
  "(\<forall>item\<in>set items. \<exists>c. read_file w (release_notes_file (fst item)) = Inr c) \<Longrightarrow>
   read_file w (release_notes_file (fst item)) = Inl e \<Longrightarrow>
     release_notes_loop w (items @ item # rest) rst = Inl e"
proof (induction items arbitrary: rst)
  case Nil
  then show ?case by (cases item) (simp add: Let_def)
next
  case (Cons a items)
  then show ?case by (cases a) (auto simp: Let_def)
qed

lemma read_file_present:
  "name \<in> fst ` set (release_notes_dir w) \<Longrightarrow> \<exists>c. read_file w name = Inr c"
  by (auto simp: read_file_def map_of_eq_None_iff split: option.splits)


lemma versioned_files_present:
  "f \<in> set (versioned_files w) \<Longrightarrow> f \<in> fst ` set (release_notes_dir w)"
  by (auto simp: versioned_files_def glob_rst_def)

lemma entry_head_None: "entry_head r None = heading_block r @ ''\<newline>''"
  by (simp add: entry_head_def heading_block_def Let_def)

lemma entry_head_Some:
  "entry_head r (Some previous) = heading_block r @ diff_link previous (git_tag r) @ ''\<newline>''"
  by (simp add: entry_head_def heading_block_def diff_link_def Let_def)

lemma sequence_released:
  assumes "tags_resolve w"
  shows "sequence (map (released w) (release_notes w)) = Inr (releases_of w)"
  unfolding releases_of_def using all_resolve[OF assms] by (rule sequence_Inr)

lemma get_release_notes_files_ok:
  assumes "tags_resolve w"
  shows "get_release_notes_files w =
     (Inr (items_of w), w\<lparr>tag_queries := tag_queries w @ queries w (release_notes w)\<rparr>)"
  by (simp add: get_release_notes_files_def Releases_eq sequence_released[OF assms] items_of_def)

lemma releases_of_file: 
  assumes "tags_resolve w"
  shows "map release_notes_file (releases_of w) = release_notes w"
proof -
  have "release_notes_file (projr (released w f)) = f" if "f \<in> set (release_notes w)" for f
    using all_resolve[OF assms] that released_file[of w f] by fastforce
  then show ?thesis
    unfolding releases_of_def by (simp add: map_idI comp_def)
qed

lemma releases_of_version: 
  assumes "tags_resolve w"
  shows "map version (releases_of w) = ''Unreleased'' # map stem (rev (sort (versioned_files w)))"
proof -
  have a: "version (projr (released w f)) = (if stem f = ''unreleased'' then ''Unreleased'' else stem f)"
    if "f \<in> set (release_notes w)" for f
    using all_resolve[OF assms] that released_version[of w f] by fastforce
  have b: "version (projr (released w f)) = stem f" if "f \<in> set (versioned_files w)" for f
    using a[of f] that versioned_files_stem[OF that] by (simp add: release_notes_def)
  have c: "version (projr (released w unreleased_notes_file)) = ''Unreleased''"
    using a[of unreleased_notes_file] by (simp add: release_notes_def stem_unreleased_notes_file)
  show ?thesis
    unfolding releases_of_def release_notes_def using b c by simp
qed

lemma items_readable:
  assumes "unreleased_notes_file \<in> fst ` set (release_notes_dir w)" and "tags_resolve w"
  shows "\<forall>item\<in>set (items_of w). \<exists>c. read_file w (release_notes_file (fst item)) = Inr c"
proof
  fix item assume "item \<in> set (items_of w)"
  then have "release_notes_file (fst item) \<in> set (map release_notes_file (map fst (items_of w)))"
    by auto
  then have "release_notes_file (fst item) \<in> set (release_notes w)"
    by (simp add: items_of_def releases_of_file[OF assms(2)])
  then consider "release_notes_file (fst item) = unreleased_notes_file"
    | "release_notes_file (fst item) \<in> set (versioned_files w)"
    by (auto simp: release_notes_def)
  then have "release_notes_file (fst item) \<in> fst ` set (release_notes_dir w)"
  proof cases
    case 1
    with assms(1) show ?thesis by simp
  next
    case 2
    then show ?thesis by (rule versioned_files_present)
  qed
  then show "\<exists>c. read_file w (release_notes_file (fst item)) = Inr c"
    by (rule read_file_present)
qed

lemma document_ok:
  assumes "unreleased_notes_file \<in> fst ` set (release_notes_dir w)" and "tags_resolve w"
  shows "document w = Inr (concat (map (entry_text w) (items_of w)))"
  using release_notes_loop_ok[OF items_readable[OF assms], of "[]"]
  by (simp add: document_def sequence_released[OF assms(2)] items_of_def)

lemma generate_release_notes_ok:
  assumes "unreleased_notes_file \<in> fst ` set (release_notes_dir w)" and "tags_resolve w"
  shows "fst (generate_release_notes w) = None"
    and "generated_sphinx (snd (generate_release_notes w)) =
           (generated_sphinx w)(''release_notes.rst'' \<mapsto> concat (map (entry_text w) (items_of w)))"
  by (simp_all add: generate_release_notes_eq document_ok[OF assms] create_file_def)

subsection \<open>Release notes: order and links\<close>

text \<open>
  The order that the script computes. For a directory with the unreleased notes and
  versioned notes whose tags resolve, the items start with the entry \<open>Unreleased\<close>, followed
  by every versioned file once, in strictly descending order of the paths, which are compared
  with their suffix. The stems are in strictly descending order as well when no stem is a
  prefix of another. The document is the concatenation of the texts of the items in this
  order.
\<close>

lemma release_notes_path_order:
  assumes "well_formed w"
    and "unreleased_notes_file \<in> fst ` set (release_notes_dir w)"
    and "tags_resolve w"
  shows "fst (get_release_notes_files w) = Inr (items_of w)
       \<and> map (release_notes_file \<circ> fst) (items_of w) =
           unreleased_notes_file # rev (sort (versioned_files w))
       \<and> map (version \<circ> fst) (items_of w) =
           ''Unreleased'' # map stem (rev (sort (versioned_files w)))
       \<and> mset (rev (sort (versioned_files w))) = mset (versioned_files w)
       \<and> sorted_wrt (>) (rev (sort (versioned_files w)))
       \<and> (prefix_free_stems w \<longrightarrow> sorted_wrt (>) (map stem (rev (sort (versioned_files w)))))
       \<and> fst (generate_release_notes w) = None
       \<and> generated_sphinx (snd (generate_release_notes w)) ''release_notes.rst'' =
           Some (concat (map (entry_text w) (items_of w)))"
proof -
  have 1: "fst (get_release_notes_files w) = Inr (items_of w)"
    by (simp add: get_release_notes_files_ok[OF assms(3)])
  have 2: "map (release_notes_file \<circ> fst) (items_of w) =
           unreleased_notes_file # rev (sort (versioned_files w))"
    using releases_of_file[OF assms(3)]
    by (simp add: items_of_def release_notes_def flip: map_map)
  have 3: "map (version \<circ> fst) (items_of w) =
           ''Unreleased'' # map stem (rev (sort (versioned_files w)))"
    using releases_of_version[OF assms(3)]
    by (simp add: items_of_def flip: map_map)
  have 4: "mset (rev (sort (versioned_files w))) = mset (versioned_files w)"
    by simp
  note 5 = versioned_descending[OF assms(1)]
  have 6: "prefix_free_stems w \<longrightarrow> sorted_wrt (>) (map stem (rev (sort (versioned_files w))))"
    using stems_descending[OF assms(1)] by blast
  note g = generate_release_notes_ok[OF assms(2,3)]
  have 8: "generated_sphinx (snd (generate_release_notes w)) ''release_notes.rst'' =
           Some (concat (map (entry_text w) (items_of w)))"
    by (simp add: g(2))
  from 1 2 3 4 5 6 g(1) 8 show ?thesis by (intro conjI)
qed

text \<open>
  The links that the loop writes, by position. Every entry but the last of the document has,
  between its heading and its notes, the line with the link to the changes since the
  previous release, built from the tag of the entry that follows it and its own tag; the last
  entry of the document has its notes right after the heading.
\<close>

lemma links_by_position:
  assumes "unreleased_notes_file \<in> fst ` set (release_notes_dir w)"
    and "tags_resolve w"
  shows "fst (generate_release_notes w) = None
       \<and> generated_sphinx (snd (generate_release_notes w)) ''release_notes.rst'' =
           Some (concat (map (entry_text w) (items_of w)))
       \<and> (\<forall>i<length (items_of w).
            (Suc i < length (items_of w) \<longrightarrow>
               snd (items_of w ! i) = Some (git_tag (fst (items_of w ! Suc i)))
               \<and> entry_text w (items_of w ! i) =
                   heading_block (fst (items_of w ! i))
                   @ diff_link (git_tag (fst (items_of w ! Suc i))) (git_tag (fst (items_of w ! i)))
                   @ ''\<newline>''
                   @ contents_of w (release_notes_file (fst (items_of w ! i))) @ ''\<newline>'')
          \<and> (Suc i = length (items_of w) \<longrightarrow>
               snd (items_of w ! i) = None
               \<and> entry_text w (items_of w ! i) =
                   heading_block (fst (items_of w ! i))
                   @ ''\<newline>''
                   @ contents_of w (release_notes_file (fst (items_of w ! i))) @ ''\<newline>''))"
proof -
  note g = generate_release_notes_ok[OF assms]
  have 2: "generated_sphinx (snd (generate_release_notes w)) ''release_notes.rst'' =
           Some (concat (map (entry_text w) (items_of w)))"
    by (simp add: g(2))
  have 3: "(Suc i < length (items_of w) \<longrightarrow>
               snd (items_of w ! i) = Some (git_tag (fst (items_of w ! Suc i)))
               \<and> entry_text w (items_of w ! i) =
                   heading_block (fst (items_of w ! i))
                   @ diff_link (git_tag (fst (items_of w ! Suc i))) (git_tag (fst (items_of w ! i)))
                   @ ''\<newline>''
                   @ contents_of w (release_notes_file (fst (items_of w ! i))) @ ''\<newline>'')
          \<and> (Suc i = length (items_of w) \<longrightarrow>
               snd (items_of w ! i) = None
               \<and> entry_text w (items_of w ! i) =
                   heading_block (fst (items_of w ! i))
                   @ ''\<newline>''
                   @ contents_of w (release_notes_file (fst (items_of w ! i))) @ ''\<newline>'')"
    if "i < length (items_of w)" for i
  proof -
    from that have i: "i < length (releases_of w)" by (simp add: items_of_def)
    note n = previous_release_git_tags_nth[OF i]
    show ?thesis
    proof (cases "Suc i = length (releases_of w)")
      case True
      then show ?thesis
        by (simp add: items_of_def n entry_text_def entry_head_None)
    next
      case False
      with i have s: "Suc i < length (releases_of w)" by simp
      note n' = previous_release_git_tags_nth[OF s]
      from False s show ?thesis
        by (simp add: items_of_def n n' entry_text_def entry_head_Some)
    qed
  qed
  from g(1) 2 3 show ?thesis by blast
qed

lemma example_world_well_formed: "well_formed example_world"
  by (simp add: well_formed_def example_world_def)

lemma example_world_unreleased:
  "unreleased_notes_file \<in> fst ` set (release_notes_dir example_world)"
  by (simp add: example_world_def unreleased_notes_file_def)

lemma example_world_sorted:
  "rev (sort (versioned_files example_world)) = [''2.0.0.rst'', ''1.0.0.rst'']"
  by code_simp

lemma example_world_resolve: "tags_resolve example_world"
  by code_simp

lemma example_world_prefix_free: "prefix_free_stems example_world"
  by code_simp

lemma example_world_items: "items_of example_world =
  [(\<lparr>release_notes_file = ''unreleased.rst'', version = ''Unreleased'', git_tag = ''master'',
     date = ''YYYY-MM-DD''\<rparr>, Some ''v2.0.0''),
   (\<lparr>release_notes_file = ''2.0.0.rst'', version = ''2.0.0'', git_tag = ''v2.0.0'',
     date = ''13 september 2020''\<rparr>, Some ''v1.0.0''),
   (\<lparr>release_notes_file = ''1.0.0.rst'', version = ''1.0.0'', git_tag = ''v1.0.0'',
     date = ''1 january 2020''\<rparr>, None)]"
  by code_simp

lemma example_world_document:
  "concat (map (entry_text example_world) (items_of example_world)) =
   ''Unreleased (YYYY-MM-DD)\<newline>-----------------------\<newline>\<newline>`Changes since previous release <https://gitlab.com/tsfpga/tsfpga/-/compare/v2.0.0...master>`__\<newline>\<newline>Nothing yet.\<newline>\<newline>2.0.0 (13 september 2020)\<newline>-------------------------\<newline>\<newline>`Changes since previous release <https://gitlab.com/tsfpga/tsfpga/-/compare/v1.0.0...v2.0.0>`__\<newline>\<newline>Second release.\<newline>\<newline>1.0.0 (1 january 2020)\<newline>----------------------\<newline>\<newline>\<newline>First release.\<newline>\<newline>''"
  unfolding example_world_items by code_simp

text \<open>The order of the entries and the document of the example.\<close>

lemma example_world_release_notes:
  "map (version \<circ> fst) (items_of example_world) = [''Unreleased'', ''2.0.0'', ''1.0.0'']
   \<and> map (release_notes_file \<circ> fst) (items_of example_world) =
       [''unreleased.rst'', ''2.0.0.rst'', ''1.0.0.rst'']
   \<and> sorted_wrt (>) [''2.0.0.rst'', ''1.0.0.rst'']
   \<and> sorted_wrt (>) [''2.0.0'', ''1.0.0'']
   \<and> fst (generate_release_notes example_world) = None
   \<and> generated_sphinx (snd (generate_release_notes example_world)) ''release_notes.rst'' =
       Some ''Unreleased (YYYY-MM-DD)\<newline>-----------------------\<newline>\<newline>`Changes since previous release <https://gitlab.com/tsfpga/tsfpga/-/compare/v2.0.0...master>`__\<newline>\<newline>Nothing yet.\<newline>\<newline>2.0.0 (13 september 2020)\<newline>-------------------------\<newline>\<newline>`Changes since previous release <https://gitlab.com/tsfpga/tsfpga/-/compare/v1.0.0...v2.0.0>`__\<newline>\<newline>Second release.\<newline>\<newline>1.0.0 (1 january 2020)\<newline>----------------------\<newline>\<newline>\<newline>First release.\<newline>\<newline>''"
proof -
  note t = release_notes_path_order[OF example_world_well_formed example_world_unreleased
      example_world_resolve, unfolded example_world_sorted example_world_document]
  have s: "map stem [''2.0.0.rst'', ''1.0.0.rst''] = [''2.0.0'', ''1.0.0'']" by code_simp
  from t have 1: "map (version \<circ> fst) (items_of example_world) = [''Unreleased'', ''2.0.0'', ''1.0.0'']"
    unfolding s by blast
  from t have 2: "map (release_notes_file \<circ> fst) (items_of example_world) =
       [''unreleased.rst'', ''2.0.0.rst'', ''1.0.0.rst'']"
    unfolding unreleased_notes_file_def by blast
  from t have 3: "sorted_wrt (>) [''2.0.0.rst'', ''1.0.0.rst'']" by blast
  from t example_world_prefix_free have 4: "sorted_wrt (>) [''2.0.0'', ''1.0.0'']"
    unfolding s by blast
  from t have 5: "fst (generate_release_notes example_world) = None" by blast
  from t have 6: "generated_sphinx (snd (generate_release_notes example_world)) ''release_notes.rst'' =
       Some ''Unreleased (YYYY-MM-DD)\<newline>-----------------------\<newline>\<newline>`Changes since previous release <https://gitlab.com/tsfpga/tsfpga/-/compare/v2.0.0...master>`__\<newline>\<newline>Nothing yet.\<newline>\<newline>2.0.0 (13 september 2020)\<newline>-------------------------\<newline>\<newline>`Changes since previous release <https://gitlab.com/tsfpga/tsfpga/-/compare/v1.0.0...v2.0.0>`__\<newline>\<newline>Second release.\<newline>\<newline>1.0.0 (1 january 2020)\<newline>----------------------\<newline>\<newline>\<newline>First release.\<newline>\<newline>''"
    by blast
  from 1 2 3 4 5 6 show ?thesis by (intro conjI)
qed

lemma prefix_world_resolve: "tags_resolve prefix_world"
  by code_simp

lemma prefix_world_unreleased:
  "unreleased_notes_file \<in> fst ` set (release_notes_dir prefix_world)"
  by (simp add: prefix_world_def unreleased_notes_file_def)

lemma prefix_world_items: "items_of prefix_world =
  [(\<lparr>release_notes_file = ''unreleased.rst'', version = ''Unreleased'', git_tag = ''master'',
     date = ''YYYY-MM-DD''\<rparr>, Some ''v1.0''),
   (\<lparr>release_notes_file = ''1.0.rst'', version = ''1.0'', git_tag = ''v1.0'',
     date = ''1 january 2020''\<rparr>, Some ''v1.0.1''),
   (\<lparr>release_notes_file = ''1.0.1.rst'', version = ''1.0.1'', git_tag = ''v1.0.1'',
     date = ''13 september 2020''\<rparr>, None)]"
  by code_simp

lemma prefix_world_document:
  "concat (map (entry_text prefix_world) (items_of prefix_world)) =
   ''Unreleased (YYYY-MM-DD)\<newline>-----------------------\<newline>\<newline>`Changes since previous release <https://gitlab.com/tsfpga/tsfpga/-/compare/v1.0...master>`__\<newline>\<newline>Nothing yet.\<newline>\<newline>1.0 (1 january 2020)\<newline>--------------------\<newline>\<newline>`Changes since previous release <https://gitlab.com/tsfpga/tsfpga/-/compare/v1.0.1...v1.0>`__\<newline>\<newline>First release.\<newline>\<newline>1.0.1 (13 september 2020)\<newline>-------------------------\<newline>\<newline>\<newline>A fix.\<newline>\<newline>''"
  unfolding prefix_world_items by code_simp

lemma prefix_world_tags:
  "tags prefix_world ''refs/tags/v1.0'' = Some 1577880000"
  "tags prefix_world ''refs/tags/v1.0.1'' = Some 1600000000"
  by (simp_all add: prefix_world_def)

text \<open>
  Claim C1. The document is to list the entry \<open>Unreleased\<close> and then the versions in
  strictly descending order, newest first. The script sorts the paths as strings, suffix
  included, and so fails where the stem of one file is a prefix of the stem of another: for
  the files \<^verbatim>\<open>1.0.rst\<close> and \<^verbatim>\<open>1.0.1.rst\<close> the document lists version 1.0, of the older
  tag, before version 1.0.1, although the stem \<^verbatim>\<open>1.0\<close> is below the stem \<^verbatim>\<open>1.0.1\<close>.
\<close>

theorem release_notes_order_failing_input:
  "fst (get_release_notes_files prefix_world) = Inr (items_of prefix_world)
   \<and> map (version \<circ> fst) (items_of prefix_world) = [''Unreleased'', ''1.0'', ''1.0.1'']
   \<and> \<not> sorted_wrt (>) [''1.0'', ''1.0.1'']
   \<and> tags prefix_world ''refs/tags/v1.0'' = Some 1577880000
   \<and> tags prefix_world ''refs/tags/v1.0.1'' = Some 1600000000
   \<and> generated_sphinx (snd (generate_release_notes prefix_world)) ''release_notes.rst'' =
       Some ''Unreleased (YYYY-MM-DD)\<newline>-----------------------\<newline>\<newline>`Changes since previous release <https://gitlab.com/tsfpga/tsfpga/-/compare/v1.0...master>`__\<newline>\<newline>Nothing yet.\<newline>\<newline>1.0 (1 january 2020)\<newline>--------------------\<newline>\<newline>`Changes since previous release <https://gitlab.com/tsfpga/tsfpga/-/compare/v1.0.1...v1.0>`__\<newline>\<newline>First release.\<newline>\<newline>1.0.1 (13 september 2020)\<newline>-------------------------\<newline>\<newline>\<newline>A fix.\<newline>\<newline>''"
proof -
  have 1: "fst (get_release_notes_files prefix_world) = Inr (items_of prefix_world)"
    by (simp add: get_release_notes_files_ok[OF prefix_world_resolve])
  have 2: "map (version \<circ> fst) (items_of prefix_world) = [''Unreleased'', ''1.0'', ''1.0.1'']"
    by (simp add: prefix_world_items)
  have 3: "\<not> sorted_wrt (>) [''1.0'', ''1.0.1'']"
    by simp
  note g = generate_release_notes_ok[OF prefix_world_unreleased prefix_world_resolve]
  have 4: "generated_sphinx (snd (generate_release_notes prefix_world)) ''release_notes.rst'' =
       Some ''Unreleased (YYYY-MM-DD)\<newline>-----------------------\<newline>\<newline>`Changes since previous release <https://gitlab.com/tsfpga/tsfpga/-/compare/v1.0...master>`__\<newline>\<newline>Nothing yet.\<newline>\<newline>1.0 (1 january 2020)\<newline>--------------------\<newline>\<newline>`Changes since previous release <https://gitlab.com/tsfpga/tsfpga/-/compare/v1.0.1...v1.0>`__\<newline>\<newline>First release.\<newline>\<newline>1.0.1 (13 september 2020)\<newline>-------------------------\<newline>\<newline>\<newline>A fix.\<newline>\<newline>''"
    unfolding g(2) prefix_world_document by simp
  from 1 2 3 prefix_world_tags 4 show ?thesis by (intro conjI)
qed

lemma prefix_world_contents:
  "contents_of prefix_world ''1.0.rst'' = ''First release.\<newline>''"
  "contents_of prefix_world ''1.0.1.rst'' = ''A fix.\<newline>''"
  by (simp_all add: contents_of_def read_file_def prefix_world_def)

text \<open>
  Claim C2. Every entry but the oldest is to have the link to the changes since the
  previous release, built from the tag of the next-older entry, and the oldest entry is to
  have none. For the same files the entry of version 1.0, whose tag is the oldest, is
  second of three: it gets a link, to version 1.0.1 of the newer tag, and the entry
  without a link is the one of version 1.0.1.
\<close>

theorem previous_release_links_failing_input:
  "fst (get_release_notes_files prefix_world) = Inr (items_of prefix_world)
   \<and> tags prefix_world ''refs/tags/v1.0'' = Some 1577880000
   \<and> tags prefix_world ''refs/tags/v1.0.1'' = Some 1600000000
   \<and> items_of prefix_world ! 1 =
       (\<lparr>release_notes_file = ''1.0.rst'', version = ''1.0'', git_tag = ''v1.0'',
         date = ''1 january 2020''\<rparr>, Some ''v1.0.1'')
   \<and> entry_text prefix_world (items_of prefix_world ! 1) =
       ''1.0 (1 january 2020)\<newline>--------------------\<newline>\<newline>`Changes since previous release <https://gitlab.com/tsfpga/tsfpga/-/compare/v1.0.1...v1.0>`__\<newline>\<newline>First release.\<newline>\<newline>''
   \<and> items_of prefix_world ! 2 =
       (\<lparr>release_notes_file = ''1.0.1.rst'', version = ''1.0.1'', git_tag = ''v1.0.1'',
         date = ''13 september 2020''\<rparr>, None)
   \<and> entry_text prefix_world (items_of prefix_world ! 2) =
       ''1.0.1 (13 september 2020)\<newline>-------------------------\<newline>\<newline>\<newline>A fix.\<newline>\<newline>''"
proof -
  have 1: "fst (get_release_notes_files prefix_world) = Inr (items_of prefix_world)"
    by (simp add: get_release_notes_files_ok[OF prefix_world_resolve])
  have 4: "items_of prefix_world ! 1 =
       (\<lparr>release_notes_file = ''1.0.rst'', version = ''1.0'', git_tag = ''v1.0'',
         date = ''1 january 2020''\<rparr>, Some ''v1.0.1'')"
    by (simp add: prefix_world_items)
  have 5: "entry_text prefix_world (items_of prefix_world ! 1) =
       ''1.0 (1 january 2020)\<newline>--------------------\<newline>\<newline>`Changes since previous release <https://gitlab.com/tsfpga/tsfpga/-/compare/v1.0.1...v1.0>`__\<newline>\<newline>First release.\<newline>\<newline>''"
    unfolding 4 by (simp add: entry_text_def entry_head_def Let_def prefix_world_contents)
  have 6: "items_of prefix_world ! 2 =
       (\<lparr>release_notes_file = ''1.0.1.rst'', version = ''1.0.1'', git_tag = ''v1.0.1'',
         date = ''13 september 2020''\<rparr>, None)"
    by (simp add: prefix_world_items)
  have 7: "entry_text prefix_world (items_of prefix_world ! 2) =
       ''1.0.1 (13 september 2020)\<newline>-------------------------\<newline>\<newline>\<newline>A fix.\<newline>\<newline>''"
    unfolding 6 by (simp add: entry_text_def entry_head_def Let_def prefix_world_contents)
  from 1 prefix_world_tags 4 5 6 7 show ?thesis by (intro conjI)
qed

text \<open>The first and the last entry of the example.\<close>

lemma example_world_links:
  "snd (items_of example_world ! 0) = Some ''v2.0.0''
   \<and> entry_text example_world (items_of example_world ! 0) =
       ''Unreleased (YYYY-MM-DD)\<newline>-----------------------\<newline>\<newline>`Changes since previous release <https://gitlab.com/tsfpga/tsfpga/-/compare/v2.0.0...master>`__\<newline>\<newline>Nothing yet.\<newline>\<newline>''
   \<and> snd (items_of example_world ! 2) = None
   \<and> entry_text example_world (items_of example_world ! 2) =
       ''1.0.0 (1 january 2020)\<newline>----------------------\<newline>\<newline>\<newline>First release.\<newline>\<newline>''"
proof -
  note t = links_by_position[OF example_world_unreleased example_world_resolve]
  have l: "length (items_of example_world) = 3" by (simp add: example_world_items)
  have c0: "contents_of example_world ''unreleased.rst'' = ''Nothing yet.\<newline>''"
    by (simp add: contents_of_def read_file_def example_world_def)
  have c2: "contents_of example_world ''1.0.0.rst'' = ''First release.\<newline>''"
    by (simp add: contents_of_def read_file_def example_world_def)
  note all = t[THEN conjunct2, THEN conjunct2, rule_format]
  from all[of 0] l have "snd (items_of example_world ! 0) = Some (git_tag (fst (items_of example_world ! Suc 0)))
      \<and> entry_text example_world (items_of example_world ! 0) =
          heading_block (fst (items_of example_world ! 0))
          @ diff_link (git_tag (fst (items_of example_world ! Suc 0))) (git_tag (fst (items_of example_world ! 0)))
          @ ''\<newline>''
          @ contents_of example_world (release_notes_file (fst (items_of example_world ! 0))) @ ''\<newline>''"
    by simp
  then have a: "snd (items_of example_world ! 0) = Some ''v2.0.0''
   \<and> entry_text example_world (items_of example_world ! 0) =
       ''Unreleased (YYYY-MM-DD)\<newline>-----------------------\<newline>\<newline>`Changes since previous release <https://gitlab.com/tsfpga/tsfpga/-/compare/v2.0.0...master>`__\<newline>\<newline>Nothing yet.\<newline>\<newline>''"
    by (simp add: example_world_items heading_block_def diff_link_def c0)
  from all[of 2] l have "snd (items_of example_world ! 2) = None
      \<and> entry_text example_world (items_of example_world ! 2) =
          heading_block (fst (items_of example_world ! 2))
          @ ''\<newline>''
          @ contents_of example_world (release_notes_file (fst (items_of example_world ! 2))) @ ''\<newline>''"
    by simp
  then have b: "snd (items_of example_world ! 2) = None
   \<and> entry_text example_world (items_of example_world ! 2) =
       ''1.0.0 (1 january 2020)\<newline>----------------------\<newline>\<newline>\<newline>First release.\<newline>\<newline>''"
    by (simp add: example_world_items heading_block_def c2)
  from a b show ?thesis by blast
qed

subsection \<open>Release notes: exceptions\<close>

lemma resolves_versioned:
  assumes "f \<in> set (versioned_files w)"
  shows "resolves w f \<longleftrightarrow> (\<exists>d. git_date w (''v'' @ stem f) = Inr d)"
  by (auto simp: resolves_iff released_versioned[OF assms] split: sum.splits)

lemma query_of_versioned: "f \<in> set (versioned_files w) \<Longrightarrow> query_of f = [''v'' @ stem f]"
  using versioned_files_stem[of f w] by (simp add: query_of_def)

lemma query_of_unreleased: "query_of unreleased_notes_file = []"
  by (simp add: query_of_def stem_unreleased_notes_file)

lemma queries_resolved:
  "(\<forall>f\<in>set fs. resolves w f) \<Longrightarrow> queries w (fs @ gs) = concat (map query_of fs) @ queries w gs"
  by (induction fs) simp_all

lemma queries_unresolved: "\<not> resolves w f \<Longrightarrow> queries w (f # rest) = query_of f"
  by simp

lemma generate_release_notes_error:
  assumes "document w = Inl e"
  shows "generate_release_notes w =
           (Some e, w\<lparr>tag_queries := tag_queries w @ queries w (release_notes w)\<rparr>)"
  by (simp add: generate_release_notes_eq assms)

lemma document_unresolved:
  assumes "\<not> tags_resolve w"
  shows "\<exists>f e qs. f \<in> set (versioned_files w) \<and> git_date w (''v'' @ stem f) = Inl e
           \<and> document w = Inl e
           \<and> queries w (release_notes w) = qs @ [''v'' @ stem f]
           \<and> ''v'' @ stem f \<notin> set qs"
proof -
  let ?vs = "rev (sort (versioned_files w))"
  from assms have "\<exists>f\<in>set ?vs. \<not> resolves w f"
    by (auto simp: tags_resolve_def list_all_iff)
  from split_list_first_prop[OF this] obtain ys f zs
    where vs: "?vs = ys @ f # zs" and nf: "\<not> resolves w f" and ys: "\<forall>y\<in>set ys. resolves w y"
    by auto
  have "f \<in> set ?vs" by (simp add: vs)
  then have fv: "f \<in> set (versioned_files w)" by simp
  have ysv: "y \<in> set (versioned_files w)" if "y \<in> set ys" for y
  proof -
    from that have "y \<in> set ?vs" by (simp add: vs)
    then show ?thesis by simp
  qed
  from nf obtain e where e: "released w f = Inl e"
    by (auto simp: resolves_def split: sum.splits)
  with released_versioned[OF fv] have gd: "git_date w (''v'' @ stem f) = Inl e"
    by (auto split: sum.splits)
  have rn: "release_notes w = (unreleased_notes_file # ys) @ f # zs"
    by (simp add: release_notes_def vs)
  have ok: "\<forall>x\<in>set (unreleased_notes_file # ys). \<exists>r. released w x = Inr r"
    using ys resolves_unreleased[of w] by (auto simp: resolves_iff)
  have "sequence (map (released w) (release_notes w)) = Inl e"
    unfolding rn using ok e by (rule sequence_Inl)
  then have doc: "document w = Inl e" by (simp add: document_def)
  have ok': "\<forall>x\<in>set (unreleased_notes_file # ys). resolves w x"
    using ys resolves_unreleased[of w] by auto
  have q: "queries w (release_notes w) = concat (map query_of ys) @ [''v'' @ stem f]"
    unfolding rn queries_resolved[OF ok']
    using nf by (simp add: query_of_unreleased query_of_versioned[OF fv])
  have "''v'' @ stem f \<notin> set (concat (map query_of ys))"
  proof
    assume "''v'' @ stem f \<in> set (concat (map query_of ys))"
    then obtain g where g: "g \<in> set ys" and m: "''v'' @ stem f \<in> set (query_of g)" by auto
    from m query_of_versioned[OF ysv[OF g]] have "stem g = stem f" by simp
    moreover from ys g have "resolves w g" by simp
    ultimately have "resolves w f"
      using resolves_versioned[OF ysv[OF g]] resolves_versioned[OF fv] by simp
    with nf show False by simp
  qed
  with fv gd doc q show ?thesis by blast
qed

text \<open>
  Claim C6. If the tag of some versioned file does not resolve, the run ends with the error
  of the lookup, as the lookup returned it: the error of the first such file in the order of
  the entries. The tag was looked up once, after the tags of the entries before it, and not
  again; no file is written.
\<close>

theorem tag_lookup_error_propagates:
  assumes "\<not> tags_resolve w"
  shows "\<exists>f e qs. f \<in> set (versioned_files w)
           \<and> git_date w (''v'' @ stem f) = Inl e
           \<and> fst (generate_release_notes w) = Some e
           \<and> generated_sphinx (snd (generate_release_notes w)) = generated_sphinx w
           \<and> release_notes_dir (snd (generate_release_notes w)) = release_notes_dir w
           \<and> tag_queries (snd (generate_release_notes w)) = tag_queries w @ qs @ [''v'' @ stem f]
           \<and> ''v'' @ stem f \<notin> set qs"
proof -
  from document_unresolved[OF assms] obtain f e qs
    where f: "f \<in> set (versioned_files w)" and gd: "git_date w (''v'' @ stem f) = Inl e"
      and doc: "document w = Inl e" and q: "queries w (release_notes w) = qs @ [''v'' @ stem f]"
      and n: "''v'' @ stem f \<notin> set qs"
    by blast
  note g = generate_release_notes_error[OF doc]
  have "fst (generate_release_notes w) = Some e"
    and "generated_sphinx (snd (generate_release_notes w)) = generated_sphinx w"
    and "release_notes_dir (snd (generate_release_notes w)) = release_notes_dir w"
    and "tag_queries (snd (generate_release_notes w)) = tag_queries w @ qs @ [''v'' @ stem f]"
    by (simp_all add: g q)
  with f gd n show ?thesis by blast
qed

lemma unresolved_world_unresolved: "\<not> tags_resolve unresolved_world"
  by code_simp

lemma unresolved_world_error:
  "fst (generate_release_notes unresolved_world) = Some (GitReferenceError ''refs/tags/v2.0.0'')"
  by code_simp

lemma unresolved_world_queries:
  "tag_queries (snd (generate_release_notes unresolved_world)) = [''v2.0.0'']"
  by code_simp

text \<open>The example without the tag of version 2.0.0: one query, its error, no document.\<close>

theorem tag_lookup_error_propagates_witness:
  "(\<exists>f e qs. f \<in> set (versioned_files unresolved_world)
       \<and> git_date unresolved_world (''v'' @ stem f) = Inl e
       \<and> fst (generate_release_notes unresolved_world) = Some e
       \<and> generated_sphinx (snd (generate_release_notes unresolved_world)) =
           generated_sphinx unresolved_world
       \<and> release_notes_dir (snd (generate_release_notes unresolved_world)) =
           release_notes_dir unresolved_world
       \<and> tag_queries (snd (generate_release_notes unresolved_world)) =
           tag_queries unresolved_world @ qs @ [''v'' @ stem f]
       \<and> ''v'' @ stem f \<notin> set qs)
   \<and> fst (generate_release_notes unresolved_world) = Some (GitReferenceError ''refs/tags/v2.0.0'')
   \<and> tag_queries (snd (generate_release_notes unresolved_world)) = [''v2.0.0'']"
  using tag_lookup_error_propagates[OF unresolved_world_unresolved]
    unresolved_world_error unresolved_world_queries
  by (intro conjI)










subsection \<open>Release notes: a second run\<close>

lemma release_notes_loop_read_cong:
  "(\<And>name. read_file w' name = read_file w name) \<Longrightarrow>
     release_notes_loop w' items rst = release_notes_loop w items rst"
  by (induction w items rst rule: release_notes_loop.induct)
    (simp_all add: Let_def split: sum.splits)

lemma document_cong:
  assumes "release_notes w' = release_notes w"
    and "\<And>name. read_file w' name = read_file w name"
    and "tags w' = tags w" and "utcoffset w' = utcoffset w"
  shows "document w' = document w"
proof -
  have "released w' = released w"
    using released_cong[OF assms(3,4)] by (rule ext)
  then show ?thesis
    by (simp add: document_def assms(1) release_notes_loop_read_cong[of w' w, OF assms(2)]
        split: sum.splits)
qed

lemma generate_release_notes_cong:
  assumes "document w' = document w"
    and "generated_sphinx w' = generated_sphinx (snd (generate_release_notes w))"
  shows "fst (generate_release_notes w') = fst (generate_release_notes w)"
    and "generated_sphinx (snd (generate_release_notes w')) =
           generated_sphinx (snd (generate_release_notes w))"
  using assms(2)
  by (simp_all add: generate_release_notes_eq[of w'] generate_release_notes_eq[of w] assms(1)
      create_file_def split: sum.splits)

lemma release_notes_mset_cong:
  assumes "mset (release_notes_dir w') = mset (release_notes_dir w)"
  shows "release_notes w' = release_notes w"
proof -
  have "mset (map fst (release_notes_dir w')) = mset (map fst (release_notes_dir w))"
    using assms by (metis mset_map)
  then have "mset (versioned_files w') = mset (versioned_files w)"
    by (simp add: versioned_files_def glob_rst_def del: mset_map)
  then have "sort (versioned_files w') = sort (versioned_files w)"
    by (intro properties_for_sort) simp_all
  then show ?thesis by (simp add: release_notes_def)
qed

lemma read_file_mset_cong:
  assumes "well_formed w" and "mset (release_notes_dir w') = mset (release_notes_dir w)"
  shows "read_file w' name = read_file w name"
proof -
  have m: "mset (map fst (release_notes_dir w')) = mset (map fst (release_notes_dir w))"
    using assms(2) by (metis mset_map)
  from assms(1) have d: "distinct (map fst (release_notes_dir w))" by (simp add: well_formed_def)
  with m have d': "distinct (map fst (release_notes_dir w'))"
    by (metis mset_eq_imp_distinct_iff)
  from assms(2) have "set (release_notes_dir w') = set (release_notes_dir w)"
    by (rule mset_eq_setD)
  with d d' have "map_of (release_notes_dir w') = map_of (release_notes_dir w)"
    by (simp add: map_of_inject_set)
  then show ?thesis by (simp add: read_file_def)
qed

text \<open>
  Claim C7. A second run, on the world that the first run left, ends as the first and leaves
  the same generated files. The same holds when the second run finds the files of the
  directory in another order, with the same tags and time zone.
\<close>

theorem generate_release_notes_idempotent:
  "fst (generate_release_notes (snd (generate_release_notes w))) = fst (generate_release_notes w)
   \<and> generated_sphinx (snd (generate_release_notes (snd (generate_release_notes w)))) =
       generated_sphinx (snd (generate_release_notes w))
   \<and> (well_formed w \<and> mset (release_notes_dir w') = mset (release_notes_dir w)
        \<and> tags w' = tags w \<and> utcoffset w' = utcoffset w
        \<and> generated_sphinx w' = generated_sphinx (snd (generate_release_notes w))
      \<longrightarrow> fst (generate_release_notes w') = fst (generate_release_notes w)
          \<and> generated_sphinx (snd (generate_release_notes w')) =
              generated_sphinx (snd (generate_release_notes w)))"
proof -
  let ?w1 = "snd (generate_release_notes w)"
  have f: "release_notes_dir ?w1 = release_notes_dir w" "tags ?w1 = tags w"
    "utcoffset ?w1 = utcoffset w"
    by (simp_all add: generate_release_notes_eq create_file_def split: sum.splits)
  have "release_notes ?w1 = release_notes w"
    by (simp add: release_notes_def versioned_files_def glob_rst_def f(1))
  then have "document ?w1 = document w"
    using read_file_cong[OF f(1)] f(2,3) by (rule document_cong)
  note a = generate_release_notes_cong[OF this refl]
  have b: "fst (generate_release_notes w') = fst (generate_release_notes w)
          \<and> generated_sphinx (snd (generate_release_notes w')) =
              generated_sphinx (snd (generate_release_notes w))"
    if wf: "well_formed w" and m: "mset (release_notes_dir w') = mset (release_notes_dir w)"
      and t: "tags w' = tags w" and u: "utcoffset w' = utcoffset w"
      and g: "generated_sphinx w' = generated_sphinx (snd (generate_release_notes w))"
  proof -
    have "document w' = document w"
      using release_notes_mset_cong[OF m] read_file_mset_cong[OF wf m] t u by (rule document_cong)
    from generate_release_notes_cong[OF this g] show ?thesis by simp
  qed
  from a b show ?thesis by blast
qed

lemma rescanned_world_hyps:
  "mset (release_notes_dir rescanned_world) = mset (release_notes_dir example_world)"
  "tags rescanned_world = tags example_world"
  "utcoffset rescanned_world = utcoffset example_world"
  "generated_sphinx rescanned_world = generated_sphinx (snd (generate_release_notes example_world))"
  by (simp_all add: rescanned_world_def)

text \<open>The example, run again on the directory scanned in reverse order.\<close>

theorem generate_release_notes_idempotent_witness:
  "fst (generate_release_notes rescanned_world) = fst (generate_release_notes example_world)
   \<and> generated_sphinx (snd (generate_release_notes rescanned_world)) =
       generated_sphinx (snd (generate_release_notes example_world))
   \<and> release_notes_dir rescanned_world \<noteq> release_notes_dir example_world"
proof -
  from generate_release_notes_idempotent[of example_world rescanned_world]
    example_world_well_formed rescanned_world_hyps
  have "fst (generate_release_notes rescanned_world) = fst (generate_release_notes example_world)
   \<and> generated_sphinx (snd (generate_release_notes rescanned_world)) =
       generated_sphinx (snd (generate_release_notes example_world))"
    by blast
  moreover have "release_notes_dir rescanned_world \<noteq> release_notes_dir example_world"
    by (simp add: rescanned_world_def example_world_def)
  ultimately show ?thesis by blast
qed

subsection \<open>Release notes: the fields of a release\<close>

lemma lower_append: "lower (a @ b) = lower a @ lower b"
  by (simp add: lower_def)

lemma lower_char_digit: "d < 10 \<Longrightarrow> lower_char (digit_char d) = digit_char d"
  by (simp add: lower_char_def digit_char_def Let_def)

lemma lower_str_nat: "lower (str_nat n) = str_nat n"
proof (induction n rule: str_nat.induct)
  case (1 n)
  show ?case
  proof (cases "n < 10")
    case True
    then show ?thesis by (subst (1 2) str_nat.simps) (simp add: lower_def lower_char_digit)
  next
    case False
    with 1 have "lower (str_nat (n div 10)) = str_nat (n div 10)" by simp
    with False show ?thesis
      by (subst (1 2) str_nat.simps) (simp add: lower_append, simp add: lower_def lower_char_digit)
  qed
qed

lemma lower_str_int: "lower (str_int i) = str_int i"
proof -
  have "lower_char CHR ''-'' = CHR ''-''" by (simp add: lower_char_def)
  then show ?thesis
    using lower_str_nat by (auto simp: str_int_def lower_def)
qed

lemma lower_month_names:
  "lower (month_name 1) = ''january''"
  "lower (month_name 2) = ''february''"
  "lower (month_name 3) = ''march''"
  "lower (month_name 4) = ''april''"
  "lower (month_name 5) = ''may''"
  "lower (month_name 6) = ''june''"
  "lower (month_name 7) = ''july''"
  "lower (month_name 8) = ''august''"
  "lower (month_name 9) = ''september''"
  "lower (month_name 10) = ''october''"
  "lower (month_name 11) = ''november''"
  "lower (month_name 12) = ''december''"
  by code_simp+

lemma lower_month_name:
  assumes "1 \<le> m" and "m \<le> 12"
  shows "lower (month_name m) =
     [''january'', ''february'', ''march'', ''april'', ''may'', ''june'', ''july'',
      ''august'', ''september'', ''october'', ''november'', ''december''] ! nat (m - 1)"
proof -
  from assms have "m \<in> {1, 2, 3, 4, 5, 6, 7, 8, 9, 10, 11, 12}" by simp presburger
  then show ?thesis
    by (elim insertE emptyE) (simp_all add: lower_month_names)
qed

lemma ord2ymd_month:
  assumes "ord2ymd k = (y, m, d)"
  shows "1 \<le> m \<and> m \<le> 12"
proof -
  define n100 where "n100 = (k - 1) mod 146097 div 36524"
  define n4 where "n4 = (k - 1) mod 146097 mod 36524 div 1461"
  define n1 where "n1 = (k - 1) mod 146097 mod 36524 mod 1461 div 365"
  define n where "n = (k - 1) mod 146097 mod 36524 mod 1461 mod 365"
  define y0 where "y0 = (k - 1) div 146097 * 400 + 1 + n100 * 100 + n4 * 4 + n1"
  define leapyear where "leapyear \<longleftrightarrow> n1 = 3 \<and> (n4 \<noteq> 24 \<or> n100 = 3)"
  define m0 where "m0 = (n + 50) div 32"
  define preceding where
    "preceding = days_before_month m0 + (if 2 < m0 \<and> leapyear then 1 else 0)"
  have eq: "ord2ymd k =
     (if n1 = 4 \<or> n100 = 4 then (y0 - 1, 12, 31)
      else if n < preceding
        then (y0, m0 - 1,
              n - (preceding - (days_in_month (m0 - 1)
                                + (if m0 - 1 = 2 \<and> leapyear then 1 else 0))) + 1)
        else (y0, m0, n - preceding + 1))"
    unfolding ord2ymd_def Let_def n100_def n4_def n1_def n_def y0_def leapyear_def m0_def
      preceding_def
    by (rule refl)
  have n: "0 \<le> n" "n < 365" by (simp_all add: n_def)
  from n have m0: "1 \<le> m0" "m0 \<le> 12" by (simp_all add: m0_def)
  consider "n1 = 4 \<or> n100 = 4" | "\<not> (n1 = 4 \<or> n100 = 4)" "n < preceding"
    | "\<not> (n1 = 4 \<or> n100 = 4)" "\<not> n < preceding"
    by blast
  then show ?thesis
  proof cases
    case 1
    with assms eq have "m = 12" by simp
    then show ?thesis by simp
  next
    case 2
    with assms eq have m: "m = m0 - 1" by simp
    have "m0 \<noteq> 1"
    proof
      assume "m0 = 1"
      then have "preceding = 0" by (simp add: preceding_def days_before_month_def)
      with 2(2) n(1) show False by simp
    qed
    with m0 m show ?thesis by simp
  next
    case 3
    with assms eq have "m = m0" by simp
    with m0 show ?thesis by simp
  qed
qed

lemma fromtimestamp_month:
  assumes "fromtimestamp tz timestamp = Inr t"
  shows "1 \<le> month t \<and> month t \<le> 12"
proof -
  obtain y m d where o: "ord2ymd (719163 + (timestamp + tz timestamp) div 86400) = (y, m, d)"
    by (cases "ord2ymd (719163 + (timestamp + tz timestamp) div 86400)")
  from assms have "month t = m"
    by (auto simp: fromtimestamp_def Let_def o split: if_splits)
  with ord2ymd_month[OF o] show ?thesis by simp
qed

lemma lower_space: "lower '' '' = '' ''"
  by (simp add: lower_def lower_char_def)

lemma git_date_resolved:
  assumes "tags w (''refs/tags/'' @ tag) = Some timestamp"
    and "fromtimestamp (utcoffset w) timestamp = Inr t"
  shows "git_date w tag = Inr (D_Month_YYYY t)"
proof -
  have "git_date w tag =
      Inr (lower (str_int (day t) @ '' '' @ month_name (month t) @ '' '' @ str_int (year t)))"
    unfolding git_date_def assms(1) option.case assms(2) sum.case by (rule refl)
  also have "lower (str_int (day t) @ '' '' @ month_name (month t) @ '' '' @ str_int (year t)) =
      D_Month_YYYY t"
    using fromtimestamp_month[OF assms(2)]
    unfolding lower_append lower_str_int lower_space D_Month_YYYY_def
    by (simp add: lower_month_name)
  finally show ?thesis .
qed

text \<open>
  Claim C5. The release of the unreleased notes has the version \<open>Unreleased\<close>, the tag
  \<open>master\<close> and the placeholder date, and no tag is looked up. Any other release has its
  stem as version, the stem after a \<open>v\<close> as tag, and as date the local calendar date of the
  commit timestamp of that tag: the day, the name of the month in lower case and the year.
\<close>

theorem release_fields:
  "(stem name = ''unreleased'' \<longrightarrow>
      Release name w =
        (Inr \<lparr>release_notes_file = name, version = ''Unreleased'', git_tag = ''master'',
               date = ''YYYY-MM-DD''\<rparr>, w))
   \<and> (stem name \<noteq> ''unreleased''
        \<and> tags w (''refs/tags/v'' @ stem name) = Some timestamp
        \<and> fromtimestamp (utcoffset w) timestamp = Inr t \<longrightarrow>
      fst (Release name w) =
        Inr \<lparr>release_notes_file = name, version = stem name, git_tag = ''v'' @ stem name,
             date = D_Month_YYYY t\<rparr>)"
proof -
  have 1: "stem name = ''unreleased'' \<longrightarrow>
      Release name w =
        (Inr \<lparr>release_notes_file = name, version = ''Unreleased'', git_tag = ''master'',
               date = ''YYYY-MM-DD''\<rparr>, w)"
    by (simp add: Release_def)
  have 2: "fst (Release name w) =
        Inr \<lparr>release_notes_file = name, version = stem name, git_tag = ''v'' @ stem name,
             date = D_Month_YYYY t\<rparr>"
    if "stem name \<noteq> ''unreleased''" and "tags w (''refs/tags/v'' @ stem name) = Some timestamp"
      and "fromtimestamp (utcoffset w) timestamp = Inr t"
  proof -
    from that(2) have "tags w (''refs/tags/'' @ ''v'' @ stem name) = Some timestamp" by simp
    from git_date_resolved[OF this that(3)] that(1) show ?thesis
      by (simp add: Release_def get_git_date_from_tag_def Let_def)
  qed
  from 1 2 show ?thesis by blast
qed

lemma example_world_utcoffset: "utcoffset example_world = (\<lambda>t. 3600)"
  by (simp add: example_world_def)

lemma fromtimestamp_example:
  "fromtimestamp (utcoffset example_world) 1600000000 = Inr \<lparr>year = 2020, month = 9, day = 13\<rparr>"
  unfolding example_world_utcoffset by code_simp

text \<open>The two kinds of release in the example.\<close>

theorem release_fields_witness:
  "Release ''unreleased.rst'' example_world =
     (Inr \<lparr>release_notes_file = ''unreleased.rst'', version = ''Unreleased'', git_tag = ''master'',
            date = ''YYYY-MM-DD''\<rparr>, example_world)
   \<and> fst (Release ''2.0.0.rst'' example_world) =
       Inr \<lparr>release_notes_file = ''2.0.0.rst'', version = ''2.0.0'', git_tag = ''v2.0.0'',
            date = ''13 september 2020''\<rparr>"
proof -
  have s1: "stem ''unreleased.rst'' = ''unreleased''" by code_simp
  have s2: "stem ''2.0.0.rst'' = ''2.0.0''" by code_simp
  have t: "tags example_world (''refs/tags/v'' @ stem ''2.0.0.rst'') = Some 1600000000"
    unfolding s2 by (simp add: example_world_def)
  have d: "D_Month_YYYY \<lparr>year = 2020, month = 9, day = 13\<rparr> = ''13 september 2020''"
    by code_simp
  from release_fields[of "''unreleased.rst''" example_world] s1
  have 1: "Release ''unreleased.rst'' example_world =
     (Inr \<lparr>release_notes_file = ''unreleased.rst'', version = ''Unreleased'', git_tag = ''master'',
            date = ''YYYY-MM-DD''\<rparr>, example_world)"
    by blast
  from release_fields[of "''2.0.0.rst''" example_world 1600000000
      "\<lparr>year = 2020, month = 9, day = 13\<rparr>"] t fromtimestamp_example
  have 2: "fst (Release ''2.0.0.rst'' example_world) =
       Inr \<lparr>release_notes_file = ''2.0.0.rst'', version = ''2.0.0'', git_tag = ''v2.0.0'',
            date = ''13 september 2020''\<rparr>"
    unfolding s2 d by simp
  from 1 2 show ?thesis by blast
qed

end
